theory Spec2Isabelle
  imports Main "HOL-Library.Word" "HOL-Library.Char_ord" "HOL-Library.List_Lexorder"
begin

unbundle bit_operations_syntax

section \<open>Utilities (util.cpp, util.hpp)\<close>

type_synonym byte = "8 word"
type_synonym u64 = "64 word"

text \<open>
  The ways a call can leave its normal path: \<open>exit(1)\<close> after a message on
  \<open>cerr\<close>, a thrown \<open>std::out_of_range\<close>, any other thrown value (the message is
  kept), a failed \<open>assert\<close>, behaviour that C++ leaves undefined, and a loop that
  never ends. \<open>Unspecified\<close> is not an error of the program: it marks a call whose
  result depends on the rounding of the mathematical library, where the model gives no
  value.
\<close>

datatype error =
    Exit_failure
  | Out_of_range
  | Thrown string
  | Assert_failed
  | Undefined_behaviour
  | Diverges
  | Unspecified

text \<open>
  \<open>x << s\<close> on a 64-bit unsigned value is undefined in C++ when \<open>s \<ge> 64\<close>; the
  model returns \<open>None\<close> there, so that a result \<open>Some v\<close> says the shift was defined.
\<close>

definition shl_u64 :: "u64 \<Rightarrow> u64 \<Rightarrow> u64 option" where
  "shl_u64 x s = (if 64 \<le> s then None else Some (push_bit (unat s) x))"

text \<open>
  \<^verbatim>\<open>return m >= 32 ? 0xFFFFFFFFFFFFFFFF : (1ull << (2 * m)) - 1;\<close>
\<close>

definition get_mini_mask :: "u64 \<Rightarrow> u64 option" where
  "get_mini_mask m =
     (if 32 \<le> m then Some 0xFFFFFFFFFFFFFFFF
      else map_option (\<lambda>v. v - 1) (shl_u64 1 (2 * m)))"

text \<open>\<^verbatim>\<open>return minimizer & get_mini_mask(m);\<close>\<close>

definition mask_mini :: "u64 \<Rightarrow> u64 \<Rightarrow> u64 option" where
  "mask_mini minimizer m = map_option (\<lambda>mask. minimizer AND mask) (get_mini_mask m)"

text \<open>
  \<open>store_big_endian(buff, size, data)\<close> writes the \<open>size\<close> low bytes of \<open>data\<close>,
  most significant first; \<open>load_big_endian\<close> folds the bytes back into a 64-bit
  value, shifting the accumulator left by 8 before each byte.
\<close>

fun store_big_endian :: "nat \<Rightarrow> u64 \<Rightarrow> byte list" where
  "store_big_endian 0 data = []"
| "store_big_endian (Suc b) data = ucast (drop_bit (8 * b) data) # store_big_endian b data"

definition load_big_endian :: "byte list \<Rightarrow> u64" where
  "load_big_endian buff = foldl (\<lambda>data b. push_bit 8 data OR ucast b) 0 buff"

subsection \<open>Unsigned arithmetic of the source\<close>

text \<open>
  Positions, sizes and counts are \<open>unsigned long\<close> or \<open>uint64_t\<close> in the source, and
  several temporaries are \<open>uint\<close> (32 bits). They are natural numbers here, with the
  reduction written where the source converts or may wrap: \<open>as_u64\<close> and \<open>as_uint\<close> are
  the conversions, \<open>sub_u64\<close> the unsigned subtraction.
\<close>

definition as_u64 :: "nat \<Rightarrow> nat" where
  "as_u64 x = x mod 2 ^ 64"

lemma less_as_u64: "n < as_u64 x \<Longrightarrow> n < x"
  using mod_less_eq_dividend [of x "2 ^ 64"] by (simp add: as_u64_def)

definition as_uint :: "nat \<Rightarrow> nat" where
  "as_uint x = x mod 2 ^ 32"

definition sub_u64 :: "nat \<Rightarrow> nat \<Rightarrow> nat" where
  "sub_u64 a b = (2 ^ 64 + as_u64 a - as_u64 b) mod 2 ^ 64"

section \<open>The file container (class \<open>Kero_file\<close>)\<close>

text \<open>
  A variable section object: where it begins, the declared count and its own
  \<open>std::map\<close> of variables, kept as an association list sorted by name (the
  order in which \<open>close\<close> writes them).
\<close>

record Section_GV =
  gv_beginning :: nat
  nb_vars :: u64
  vars :: "(string \<times> u64) list"

text \<open>
  The fields of \<open>Kero_file\<close> that the modelled member functions read or write.
  The \<open>std::fstream fs\<close> is the three fields \<open>disk\<close> (the bytes of the file behind
  the stream), \<open>fs_is_open\<close> and \<open>fs_pos\<close> (the stream position, one for reading
  and writing as in a \<open>filebuf\<close>). Positions and sizes are \<open>unsigned long\<close> in the
  source and natural numbers here. In \<open>read\<close>, whose tests add a size given by the
  caller to a position, the sums are reduced with \<open>as_u64\<close> as the source wraps them;
  the counters of a writer grow by the bytes written and are left as they are.
\<close>

record Kero_file =
  disk :: "byte list"
  fs_is_open :: bool
  fs_pos :: nat
  current_position :: nat
  writing_started :: bool
  file_buffer :: "byte list"
  file_size :: nat
  buffer_size :: nat
  max_buffer_size :: nat
  next_free :: nat
  tmp_closed :: bool
  header_over :: bool
  footer_discovery_ended :: bool
  end_position :: nat
  is_writer :: bool
  is_reader :: bool
  footer :: "Section_GV option"
  indexed :: bool
  section_positions :: "(int \<times> byte) list"
  encoding :: "byte list"
  metadata_size :: nat
  global_vars :: "string \<rightharpoonup> u64"
  mini_list :: "u64 list"
  mini_pos :: "u64 list"

subsection \<open>The file stream\<close>

text \<open>
  Opening for input puts the stream at byte 0; opening for output alone truncates the
  file. A read that cannot deliver all its bytes and a write on a closed stream set the
  fail bit: the model returns \<open>None\<close>, and each caller tests \<open>fs.fail()\<close> right after.
  A write at the stream position overwrites what is there and extends the file when
  it passes the end.
\<close>

definition fs_open_in :: "Kero_file \<Rightarrow> Kero_file" where
  "fs_open_in f = f\<lparr>fs_is_open := True, fs_pos := 0\<rparr>"

definition fs_open_out :: "Kero_file \<Rightarrow> Kero_file" where
  "fs_open_out f = f\<lparr>fs_is_open := True, fs_pos := 0, disk := []\<rparr>"

definition fs_seek :: "Kero_file \<Rightarrow> nat \<Rightarrow> Kero_file" where
  "fs_seek f p = (if fs_is_open f then f\<lparr>fs_pos := p\<rparr> else f)"

definition fs_read :: "Kero_file \<Rightarrow> nat \<Rightarrow> (byte list \<times> Kero_file) option" where
  "fs_read f n =
     (if fs_is_open f \<and> fs_pos f + n \<le> length (disk f)
      then Some (take n (drop (fs_pos f) (disk f)), f\<lparr>fs_pos := fs_pos f + n\<rparr>)
      else None)"

text \<open>\<open>memcpy(dst + pos, src, length src)\<close> on a buffer that holds the range.\<close>

definition memcpy :: "byte list \<Rightarrow> nat \<Rightarrow> byte list \<Rightarrow> byte list" where
  "memcpy dst pos src = take pos dst @ src @ drop (pos + length src) dst"

definition fs_write :: "Kero_file \<Rightarrow> byte list \<Rightarrow> Kero_file option" where
  "fs_write f bytes =
     (if fs_is_open f
      then Some (f\<lparr>disk := memcpy (disk f @ replicate (fs_pos f - length (disk f)) 0) (fs_pos f) bytes,
                    fs_pos := fs_pos f + length bytes\<rparr>)
      else None)"

subsection \<open>\<open>Kero_file::read\<close>\<close>

text \<open>
  The bytes read are returned with the new state. A read that starts on disk and ends
  in the buffer is two recursive calls, as in the source: the first reads up to
  \<open>file_size\<close>, the second the rest. The sums \<open>current_position + size\<close> and
  \<open>buffer_position + size\<close> are formed in \<open>unsigned long\<close> and wrap; when the second
  one has wrapped below \<open>next_free\<close>, \<open>memcpy\<close> is asked for more bytes than the buffer
  holds, which is undefined.
\<close>

function Kero_file_read :: "Kero_file \<Rightarrow> nat \<Rightarrow> error + (byte list \<times> Kero_file)" where
  "Kero_file_read f sz =
     (if \<not> is_reader f then Inl Exit_failure
      else if current_position f < file_size f then
        (if as_u64 (current_position f + sz) > file_size f then
           (let fs_read_size = file_size f - current_position f in
            case Kero_file_read f fs_read_size of
              Inl e \<Rightarrow> Inl e
            | Inr (b1, f1) \<Rightarrow>
                (case Kero_file_read f1 (sz - fs_read_size) of
                   Inl e \<Rightarrow> Inl e
                 | Inr (b2, f2) \<Rightarrow> Inr (b1 @ b2, f2)))
         else
           (case fs_read (if \<not> fs_is_open f then fs_open_in f else f) sz of
              None \<Rightarrow> Inl Exit_failure
            | Some (bs, f1) \<Rightarrow>
                Inr (bs, f1\<lparr>current_position := as_u64 (current_position f1 + sz)\<rparr>)))
      else
        (let buffer_position = current_position f - file_size f in
         if as_u64 (buffer_position + sz) > next_free f then Inl Out_of_range
         else if length (file_buffer f) < buffer_position + sz then Inl Undefined_behaviour
         else Inr (take sz (drop buffer_position (file_buffer f)),
                   f\<lparr>current_position := as_u64 (current_position f + sz)\<rparr>)))"
  by pat_completeness auto
termination
  by (relation "measure (\<lambda>(f, sz). sz)") (auto dest!: less_as_u64)

declare Kero_file_read.simps [simp del]

subsection \<open>\<open>Kero_file::write\<close>, \<open>write_at\<close>, \<open>reopen\<close>\<close>

definition Kero_file_reopen :: "Kero_file \<Rightarrow> Kero_file" where
  "Kero_file_reopen f =
     (if tmp_closed f
      then f\<lparr>fs_is_open := True, fs_pos := length (disk f), tmp_closed := False\<rparr>
      else f)"

text \<open>
  The loop that doubles the buffer while the bytes do not fit and the buffer is below
  \<open>max_buffer_size\<close>. The new buffer holds the \<open>next_free\<close> bytes in use and zeros
  after them. With \<open>buffer_size = 0\<close> the source loop would never end; the result
  is \<open>None\<close> then.
\<close>

partial_function (option) resize_buffer :: "Kero_file \<Rightarrow> nat \<Rightarrow> Kero_file option" where
  "resize_buffer f sz =
     (if buffer_size f - next_free f < sz \<and> buffer_size f < max_buffer_size f
      then resize_buffer
             (f\<lparr>buffer_size := 2 * buffer_size f,
                file_buffer := take (next_free f) (file_buffer f)
                               @ replicate (2 * buffer_size f - next_free f) 0\<rparr>) sz
      else Some f)"

definition Kero_file_write :: "Kero_file \<Rightarrow> byte list \<Rightarrow> error + Kero_file" where
  "Kero_file_write f bytes =
     (if \<not> is_writer f then Inl Exit_failure
      else case resize_buffer f (length bytes) of
        None \<Rightarrow> Inl Diverges
      | Some f1 \<Rightarrow>
          (if length bytes \<le> buffer_size f1 - next_free f1 then
             Inr (f1\<lparr>file_buffer := memcpy (file_buffer f1) (next_free f1) bytes,
                     next_free := next_free f1 + length bytes,
                     current_position := current_position f1 + length bytes\<rparr>)
           else
             (let f2 = (if \<not> writing_started f1 then (fs_open_out f1)\<lparr>writing_started := True\<rparr>
                        else if tmp_closed f1 then Kero_file_reopen f1 else f1)
              in case fs_write f2 (take (next_free f2) (file_buffer f2)) of
                   None \<Rightarrow> Inl Exit_failure
                 | Some f3 \<Rightarrow>
                     (case fs_write f3 bytes of
                        None \<Rightarrow> Inl Exit_failure
                      | Some f4 \<Rightarrow>
                          Inr (f4\<lparr>file_size := file_size f4 + next_free f4 + length bytes,
                                  next_free := 0,
                                  current_position := current_position f4 + length bytes\<rparr>)))))"

fun Kero_file_write_at :: "Kero_file \<Rightarrow> byte list \<Rightarrow> nat \<Rightarrow> error + Kero_file" where
  "Kero_file_write_at f bytes position =
     (if \<not> is_writer f then Inl Exit_failure
      else if position > file_size f + next_free f then Inl Exit_failure
      else if position < file_size f then
        (if position + length bytes \<le> file_size f then
           (case fs_write (fs_seek (if tmp_closed f then Kero_file_reopen f else f) position) bytes of
              None \<Rightarrow> Inl Exit_failure
            | Some f1 \<Rightarrow> Inr (fs_seek f1 (file_size f1)))
         else
           (let in_file_size = file_size f - position in
            case Kero_file_write_at f (take in_file_size bytes) position of
              Inl e \<Rightarrow> Inl e
            | Inr f1 \<Rightarrow>
                Kero_file_write_at f1 (drop in_file_size bytes) (position + in_file_size)))
      else
        (let corrected_position = position - file_size f in
         if corrected_position + length bytes \<le> next_free f then
           Inr (f\<lparr>file_buffer := memcpy (file_buffer f) corrected_position bytes\<rparr>)
         else
           Kero_file_write (f\<lparr>next_free := corrected_position\<rparr>) bytes))"

declare Kero_file_write_at.simps [simp del]

subsection \<open>Positions\<close>

definition Kero_file_tellp :: "Kero_file \<Rightarrow> nat" where
  "Kero_file_tellp f = current_position f"

definition Kero_file_jump_to :: "Kero_file \<Rightarrow> nat \<Rightarrow> bool \<Rightarrow> error + Kero_file" where
  "Kero_file_jump_to f position from_end =
     (if file_size f + next_free f < position then Inl Exit_failure
      else
        (let position' = (if from_end then file_size f + next_free f - position else position)
         in Inr ((if position' < file_size f then fs_seek f position'
                  else fs_seek f (length (disk f)))\<lparr>current_position := position'\<rparr>)))"

text \<open>
  \<open>jump(long size)\<close> adds a signed offset to the unsigned position; the sum wraps
  modulo \<open>2 ^ 64\<close>, so a jump before byte 0 becomes a jump far past the end.
\<close>

definition Kero_file_jump :: "Kero_file \<Rightarrow> int \<Rightarrow> error + Kero_file" where
  "Kero_file_jump f sz =
     Kero_file_jump_to f (nat ((int (current_position f) + sz) mod 2 ^ 64)) False"

subsection \<open>What the file holds, and the states the class keeps itself in\<close>

text \<open>
  The content of the file as a reader or a later \<open>write_at\<close> sees it: the
  \<open>file_size\<close> bytes on disk followed by the \<open>next_free\<close> bytes of the buffer.
\<close>

definition file_content :: "Kero_file \<Rightarrow> byte list" where
  "file_content f = take (file_size f) (disk f) @ take (next_free f) (file_buffer f)"

text \<open>
  In read mode \<open>open\<close> sets \<open>file_size\<close> to the length of the file and leaves the
  stream at byte 0; \<open>read\<close> and \<open>jump_to\<close> then move the stream with
  \<open>current_position\<close> while it is inside the file.
\<close>

definition reader_inv :: "Kero_file \<Rightarrow> bool" where
  "reader_inv f \<longleftrightarrow>
     is_reader f \<and> file_size f = length (disk f) \<and> next_free f \<le> length (file_buffer f)
     \<and> (current_position f < file_size f \<longrightarrow>
          (if fs_is_open f then fs_pos f = current_position f else current_position f = 0))"

text \<open>
  In write mode the buffer has \<open>buffer_size > 0\<close> bytes of which \<open>next_free\<close> are in
  use; nothing is on disk before the first flush, and afterwards the stream is either
  released by \<open>tmp_close\<close> or stands at the end of the \<open>file_size\<close> bytes written.
\<close>

definition writer_inv :: "Kero_file \<Rightarrow> bool" where
  "writer_inv f \<longleftrightarrow>
     is_writer f \<and> next_free f \<le> buffer_size f \<and> buffer_size f = length (file_buffer f)
     \<and> 0 < buffer_size f
     \<and> (if writing_started f
         then file_size f = length (disk f)
              \<and> (tmp_closed f \<or> (fs_is_open f \<and> fs_pos f = length (disk f)))
         else file_size f = 0)"

text \<open>The fields that \<open>read\<close>, \<open>write\<close>, \<open>write_at\<close> and \<open>jump_to\<close> never touch.\<close>

definition same_meta :: "Kero_file \<Rightarrow> Kero_file \<Rightarrow> bool" where
  "same_meta f f' \<longleftrightarrow>
     header_over f' = header_over f \<and> footer_discovery_ended f' = footer_discovery_ended f
     \<and> end_position f' = end_position f \<and> is_writer f' = is_writer f \<and> is_reader f' = is_reader f
     \<and> footer f' = footer f \<and> indexed f' = indexed f \<and> section_positions f' = section_positions f
     \<and> encoding f' = encoding f \<and> metadata_size f' = metadata_size f
     \<and> global_vars f' = global_vars f \<and> mini_list f' = mini_list f \<and> mini_pos f' = mini_pos f
     \<and> max_buffer_size f' = max_buffer_size f"

subsection \<open>Two small states\<close>

text \<open>
  A reader over a file of three bytes on disk and two more in the buffer, standing at
  byte 1; and a writer in the same situation, standing at the end.
\<close>

definition example_reader :: Kero_file where
  "example_reader =
     \<lparr>disk = [1, 2, 3], fs_is_open = True, fs_pos = 1, current_position = 1,
      writing_started = False, file_buffer = [4, 5, 0, 0], file_size = 3, buffer_size = 4,
      max_buffer_size = 8, next_free = 2, tmp_closed = False, header_over = True,
      footer_discovery_ended = True, end_position = 0, is_writer = False, is_reader = True,
      footer = None, indexed = False, section_positions = [], encoding = [0, 1, 3, 2],
      metadata_size = 0, global_vars = Map.empty, mini_list = [], mini_pos = []\<rparr>"

definition example_writer :: Kero_file where
  "example_writer =
     \<lparr>disk = [1, 2, 3], fs_is_open = True, fs_pos = 3, current_position = 5,
      writing_started = True, file_buffer = [4, 5, 0, 0], file_size = 3, buffer_size = 4,
      max_buffer_size = 8, next_free = 2, tmp_closed = False, header_over = True,
      footer_discovery_ended = True, end_position = 0, is_writer = True, is_reader = False,
      footer = None, indexed = True, section_positions = [], encoding = [0, 1, 3, 2],
      metadata_size = 0, global_vars = Map.empty, mini_list = [], mini_pos = []\<rparr>"

section \<open>Sections\<close>

subsection \<open>Strings and sorted maps\<close>

text \<open>
  A \<open>char\<close> of the source is a byte: \<open>byte_to_char\<close> reads a byte as a character,
  \<open>of_char\<close> goes back. \<open>c_str\<close> is the bytes of a string followed by the NUL
  that ends it.
\<close>

definition byte_to_char :: "byte \<Rightarrow> char" where
  "byte_to_char b =
     Char (bit b 0) (bit b 1) (bit b 2) (bit b 3) (bit b 4) (bit b 5) (bit b 6) (bit b 7)"

definition c_str :: "string \<Rightarrow> byte list" where
  "c_str s = map of_char s @ [0]"

text \<open>
  \<open>m[k] = v\<close> on a \<open>std::map\<close>, kept as a list of pairs in increasing key order (the
  order of iteration): a new key is inserted at its place, an old one gets the new value.
\<close>

fun map_assign :: "'k::linorder \<Rightarrow> 'v \<Rightarrow> ('k \<times> 'v) list \<Rightarrow> ('k \<times> 'v) list" where
  "map_assign k v [] = [(k, v)]"
| "map_assign k v ((k', v') # xs) =
     (if k < k' then (k, v) # (k', v') # xs
      else if k = k' then (k, v) # xs
      else (k', v') # map_assign k v xs)"

subsection \<open>The header and the base class \<open>Section\<close>\<close>

definition Kero_file_write_metadata :: "Kero_file \<Rightarrow> nat \<Rightarrow> byte list \<Rightarrow> error + Kero_file" where
  "Kero_file_write_metadata f sz data =
     (if header_over f then Inl Exit_failure
      else case Kero_file_write f (store_big_endian 4 (of_nat sz)) of
        Inl e \<Rightarrow> Inl e
      | Inr f1 \<Rightarrow>
          (case Kero_file_write f1 (take sz data) of
             Inl e \<Rightarrow> Inl e
           | Inr f2 \<Rightarrow> Inr (f2\<lparr>header_over := True\<rparr>)))"

definition Kero_file_complete_header :: "Kero_file \<Rightarrow> error + Kero_file" where
  "Kero_file_complete_header f =
     (if header_over f then Inr f
      else if is_reader f then
        (case Kero_file_jump f (int (metadata_size f)) of
           Inl e \<Rightarrow> Inl e
         | Inr f1 \<Rightarrow> Inr (f1\<lparr>header_over := True\<rparr>))
      else if is_writer f then
        (case Kero_file_write_metadata f 0 [] of
           Inl e \<Rightarrow> Inl e
         | Inr f1 \<Rightarrow> Inr (f1\<lparr>header_over := True\<rparr>))
      else Inr (f\<lparr>header_over := True\<rparr>))"

text \<open>
  The constructor of \<open>Section\<close> completes the header when needed and records where the
  section begins; the model returns that position with the file.
\<close>

definition Section_ctor :: "Kero_file \<Rightarrow> error + (nat \<times> Kero_file)" where
  "Section_ctor f =
     (case (if \<not> header_over f \<and> footer_discovery_ended f
            then Kero_file_complete_header f else Inr f) of
        Inl e \<Rightarrow> Inl e
      | Inr f1 \<Rightarrow> Inr (Kero_file_tellp f1, f1))"

definition Kero_file_register_position :: "Kero_file \<Rightarrow> byte \<Rightarrow> Kero_file" where
  "Kero_file_register_position f section_type =
     (if is_writer f \<and> indexed f
      then f\<lparr>section_positions :=
               map_assign (int (Kero_file_tellp f)) section_type (section_positions f)\<rparr>
      else f)"

definition Kero_file_register_minimizer_section :: "Kero_file \<Rightarrow> u64 \<Rightarrow> Kero_file" where
  "Kero_file_register_minimizer_section f minimizer =
     (if is_writer f \<and> indexed f
      then f\<lparr>mini_list := mini_list f @ [minimizer],
             mini_pos := mini_pos f @ [of_nat (Kero_file_tellp f)]\<rparr>
      else f)"

subsection \<open>Global variable sections (\<open>Section_GV\<close>)\<close>

text \<open>
  The loop of \<open>read_var\<close> that reads a name byte by byte until the NUL. It ends when a
  read fails or a NUL is met; \<open>None\<close> stands for a loop that does neither.
\<close>

partial_function (option) read_name ::
  "Kero_file \<Rightarrow> string \<Rightarrow> (error + (string \<times> Kero_file)) option" where
  "read_name f ss =
     (case Kero_file_read f 1 of
        Inl e \<Rightarrow> Some (Inl e)
      | Inr (bs, f1) \<Rightarrow>
          (if hd bs = 0 then Some (Inr (ss, f1))
           else read_name f1 (ss @ [byte_to_char (hd bs)])))"

text \<open>\<open>Section_GV::read_var\<close>: a NUL-terminated name, then a big-endian 64-bit value.\<close>

definition Section_GV_read_var :: "Section_GV \<Rightarrow> Kero_file \<Rightarrow> error + (Section_GV \<times> Kero_file)" where
  "Section_GV_read_var sgv f =
     (if end_position f \<le> Kero_file_tellp f
      then Inl (Thrown ''eof reached before the end of the variable section'')
      else case read_name f [] of
        None \<Rightarrow> Inl Diverges
      | Some (Inl e) \<Rightarrow> Inl e
      | Some (Inr (name, f1)) \<Rightarrow>
          (case Kero_file_read f1 8 of
             Inl e \<Rightarrow> Inl e
           | Inr (buff, f2) \<Rightarrow>
               Inr (sgv\<lparr>vars := map_assign name (load_big_endian buff) (vars sgv)\<rparr>,
                    f2\<lparr>global_vars := (global_vars f2)(name \<mapsto> load_big_endian buff)\<rparr>)))"

fun read_vars :: "nat \<Rightarrow> Section_GV \<Rightarrow> Kero_file \<Rightarrow> error + (Section_GV \<times> Kero_file)" where
  "read_vars 0 sgv f = Inr (sgv, f)"
| "read_vars (Suc n) sgv f =
     (case Section_GV_read_var sgv f of
        Inl e \<Rightarrow> Inl e
      | Inr (sgv1, f1) \<Rightarrow> read_vars n sgv1 f1)"

definition Section_GV_read_section :: "Section_GV \<Rightarrow> Kero_file \<Rightarrow> error + (Section_GV \<times> Kero_file)" where
  "Section_GV_read_section sgv f =
     (case Kero_file_read f 1 of
        Inl e \<Rightarrow> Inl e
      | Inr (type, f1) \<Rightarrow>
          (if hd type \<noteq> of_char CHR ''v''
           then Inl (Thrown ''The section do not start with the 'v' char, you can't open a Global Variable section.'')
           else case Kero_file_read f1 8 of
             Inl e \<Rightarrow> Inl e
           | Inr (buff, f2) \<Rightarrow>
               read_vars (unat (load_big_endian buff))
                 (sgv\<lparr>nb_vars := load_big_endian buff\<rparr>) f2))"

text \<open>
  The constructor empties the container's \<open>global_vars\<close> before anything else
  (\<open>this->file->global_vars.clear()\<close>), then reads the section in read mode, or
  registers the position and writes the tag in write mode.
\<close>

definition Section_GV_ctor :: "Kero_file \<Rightarrow> error + (Section_GV \<times> Kero_file)" where
  "Section_GV_ctor f =
     (case Section_ctor f of
        Inl e \<Rightarrow> Inl e
      | Inr (beginning, f1) \<Rightarrow>
          (case (if is_reader f1
                 then Section_GV_read_section \<lparr>gv_beginning = beginning, nb_vars = 0, vars = []\<rparr>
                        (f1\<lparr>global_vars := Map.empty\<rparr>)
                 else Inr (\<lparr>gv_beginning = beginning, nb_vars = 0, vars = []\<rparr>,
                           f1\<lparr>global_vars := Map.empty\<rparr>)) of
             Inl e \<Rightarrow> Inl e
           | Inr (sgv, f2) \<Rightarrow>
               (if is_writer f2 then
                  (case Kero_file_write
                          (if indexed f2 then Kero_file_register_position f2 (of_char CHR ''v'')
                           else f2) [of_char CHR ''v''] of
                     Inl e \<Rightarrow> Inl e
                   | Inr f3 \<Rightarrow> Inr (sgv, f3))
                else Inr (sgv, f2))))"

definition Section_GV_write_var ::
  "Section_GV \<Rightarrow> Kero_file \<Rightarrow> string \<Rightarrow> u64 \<Rightarrow> Section_GV \<times> Kero_file" where
  "Section_GV_write_var sgv f var_name v =
     (sgv\<lparr>nb_vars := nb_vars sgv + 1, vars := map_assign var_name v (vars sgv)\<rparr>,
      f\<lparr>global_vars := (global_vars f)(var_name \<mapsto> v)\<rparr>)"

fun write_vars :: "Kero_file \<Rightarrow> (string \<times> u64) list \<Rightarrow> error + Kero_file" where
  "write_vars f [] = Inr f"
| "write_vars f ((name, v) # rest) =
     (case Kero_file_write f (c_str name) of
        Inl e \<Rightarrow> Inl e
      | Inr f1 \<Rightarrow>
          (case Kero_file_write f1 (store_big_endian 8 v) of
             Inl e \<Rightarrow> Inl e
           | Inr f2 \<Rightarrow> write_vars f2 rest))"

definition Section_GV_close :: "Section_GV \<Rightarrow> Kero_file \<Rightarrow> error + Kero_file" where
  "Section_GV_close sgv f =
     (if is_writer f then
        (case Kero_file_write f (store_big_endian 8 (nb_vars sgv)) of
           Inl e \<Rightarrow> Inl e
         | Inr f1 \<Rightarrow> write_vars f1 (vars sgv))
      else Inr f)"

text \<open>
  The layout of a variable section in the file, as the writer above emits it and
  \<open>read_section\<close> parses it: the tag, the count on 8 bytes, and for each variable its
  name, a NUL and its value on 8 bytes.
\<close>

definition var_bytes :: "string \<times> u64 \<Rightarrow> byte list" where
  "var_bytes nv = c_str (fst nv) @ store_big_endian 8 (snd nv)"

definition gv_section_bytes :: "(string \<times> u64) list \<Rightarrow> byte list" where
  "gv_section_bytes vs =
     of_char CHR ''v'' # store_big_endian 8 (of_nat (length vs)) @ concat (map var_bytes vs)"

text \<open>A reader that meets \<open>n\<close> variable sections in a row opens and closes each in turn.\<close>

fun read_GV_sections :: "nat \<Rightarrow> Kero_file \<Rightarrow> error + (Section_GV list \<times> Kero_file)" where
  "read_GV_sections 0 f = Inr ([], f)"
| "read_GV_sections (Suc n) f =
     (case Section_GV_ctor f of
        Inl e \<Rightarrow> Inl e
      | Inr (sgv, f1) \<Rightarrow>
          (case Section_GV_close sgv f1 of
             Inl e \<Rightarrow> Inl e
           | Inr f2 \<Rightarrow>
               (case read_GV_sections n f2 of
                  Inl e \<Rightarrow> Inl e
                | Inr (rest, f3) \<Rightarrow> Inr (sgv # rest, f3))))"

subsection \<open>Footer discovery\<close>

fun read_chars :: "nat \<Rightarrow> Kero_file \<Rightarrow> string \<Rightarrow> error + (string \<times> Kero_file)" where
  "read_chars 0 f ss = Inr (ss, f)"
| "read_chars (Suc n) f ss =
     (case Kero_file_read f 1 of
        Inl e \<Rightarrow> Inl e
      | Inr (bs, f1) \<Rightarrow> read_chars n f1 (ss @ [byte_to_char (hd bs)]))"

text \<open>
  \<open>Kero_file::footer_discovery\<close>: go 23 bytes before the end, read 11 characters, and
  stop there unless they spell \<open>footer_size\<close>; else skip the NUL, read the size, go
  \<open>size + 3\<close> bytes before the end and read the variable section that is the footer.
\<close>

definition Kero_file_footer_discovery :: "Kero_file \<Rightarrow> error + Kero_file" where
  "Kero_file_footer_discovery f =
     (let current_pos = Kero_file_tellp f in
      case Kero_file_jump_to f 23 True of
        Inl e \<Rightarrow> Inl e
      | Inr f1 \<Rightarrow>
      (case read_chars 11 f1 [] of
        Inl e \<Rightarrow> Inl e
      | Inr (ss, f2) \<Rightarrow>
      (if ss \<noteq> ''footer_size'' then Inr f2
       else case Kero_file_jump f2 1 of
        Inl e \<Rightarrow> Inl e
      | Inr f3 \<Rightarrow>
      (case Kero_file_read f3 8 of
        Inl e \<Rightarrow> Inl e
      | Inr (buff, f4) \<Rightarrow>
      (case Kero_file_jump_to f4 (unat (load_big_endian buff + 3)) True of
        Inl e \<Rightarrow> Inl e
      | Inr f5 \<Rightarrow>
      (case Section_GV_ctor f5 of
        Inl e \<Rightarrow> Inl e
      | Inr (sgv, f6) \<Rightarrow>
      (case Section_GV_close sgv f6 of
        Inl e \<Rightarrow> Inl e
      | Inr f7 \<Rightarrow>
          Kero_file_jump_to (f7\<lparr>footer := Some sgv, footer_discovery_ended := True\<rparr>)
            current_pos False)))))))"

subsection \<open>Index sections (\<open>Section_Index\<close>)\<close>

record Section_Index =
  si_beginning :: nat
  index :: "(int \<times> byte) list"
  next_index :: int

fun read_index_entries ::
  "nat \<Rightarrow> (int \<times> byte) list \<Rightarrow> Kero_file \<Rightarrow> error + ((int \<times> byte) list \<times> Kero_file)" where
  "read_index_entries 0 idx f = Inr (idx, f)"
| "read_index_entries (Suc n) idx f =
     (case Kero_file_read f 1 of
        Inl e \<Rightarrow> Inl e
      | Inr (type, f1) \<Rightarrow>
          (case Kero_file_read f1 8 of
             Inl e \<Rightarrow> Inl e
           | Inr (buff, f2) \<Rightarrow>
               read_index_entries n (map_assign (sint (load_big_endian buff)) (hd type) idx) f2))"

definition Section_Index_ctor :: "Kero_file \<Rightarrow> error + (Section_Index \<times> Kero_file)" where
  "Section_Index_ctor f =
     (case Section_ctor f of
        Inl e \<Rightarrow> Inl e
      | Inr (beginning, f1) \<Rightarrow>
          (if is_reader f1 then
             (case Kero_file_read f1 1 of
                Inl e \<Rightarrow> Inl e
              | Inr (type, f2) \<Rightarrow>
                  (if hd type \<noteq> of_char CHR ''i''
                   then Inl (Thrown ''The section do not start with the 'i' char, you can not open an Index section.'')
                   else case Kero_file_read f2 8 of
                     Inl e \<Rightarrow> Inl e
                   | Inr (buff, f3) \<Rightarrow>
                       (case read_index_entries (unat (load_big_endian buff)) [] f3 of
                          Inl e \<Rightarrow> Inl e
                        | Inr (idx, f4) \<Rightarrow>
                            (if unat (load_big_endian buff) \<noteq> length idx
                             then Inl (Thrown ''index collision in i section'')
                             else case Kero_file_read f4 8 of
                               Inl e \<Rightarrow> Inl e
                             | Inr (buff', f5) \<Rightarrow>
                                 Inr (\<lparr>si_beginning = beginning, index = idx,
                                       next_index = sint (load_big_endian buff')\<rparr>, f5)))))
           else Inr (\<lparr>si_beginning = beginning, index = [], next_index = 0\<rparr>, f1)))"

definition Section_Index_register_section :: "Section_Index \<Rightarrow> byte \<Rightarrow> int \<Rightarrow> Section_Index" where
  "Section_Index_register_section si section_type pos =
     si\<lparr>index := map_assign pos section_type (index si)\<rparr>"

fun write_index_entries :: "Kero_file \<Rightarrow> (int \<times> byte) list \<Rightarrow> error + Kero_file" where
  "write_index_entries f [] = Inr f"
| "write_index_entries f ((pos, type) # rest) =
     (case Kero_file_write f [type] of
        Inl e \<Rightarrow> Inl e
      | Inr f1 \<Rightarrow>
          (case Kero_file_write f1 (store_big_endian 8 (word_of_int pos)) of
             Inl e \<Rightarrow> Inl e
           | Inr f2 \<Rightarrow> write_index_entries f2 rest))"

definition Section_Index_close :: "Section_Index \<Rightarrow> Kero_file \<Rightarrow> error + Kero_file" where
  "Section_Index_close si f =
     (if is_writer f then
        (case Kero_file_write f [of_char CHR ''i''] of
           Inl e \<Rightarrow> Inl e
         | Inr f1 \<Rightarrow>
        (case Kero_file_write f1 (store_big_endian 8 (of_nat (length (index si)))) of
           Inl e \<Rightarrow> Inl e
         | Inr f2 \<Rightarrow>
        (case write_index_entries f2 (index si) of
           Inl e \<Rightarrow> Inl e
         | Inr f3 \<Rightarrow> Kero_file_write f3 (store_big_endian 8 (word_of_int (next_index si))))))
      else Inr f)"

subsection \<open>The minimal perfect hash table (mpht.hpp)\<close>

text \<open>
  The hashing library is a collaborator given from outside: how a function is built
  from a list of keys, how it is evaluated, saved to bytes and loaded back, and the
  state of a function that was never built.
\<close>

record 'm pthash =
  ph_init :: 'm
  ph_build :: "u64 list \<Rightarrow> 'm"
  ph_eval :: "'m \<Rightarrow> u64 \<Rightarrow> u64"
  ph_save :: "'m \<Rightarrow> byte list"
  ph_load :: "byte list \<Rightarrow> 'm"

record 'm MPHT =
  mphf :: 'm
  hashtable :: "u64 list"

text \<open>
  \<open>hashtable[mphf(keys[i])] = values[i]\<close> for \<open>i\<close> from 0 upwards. An index outside
  the table is an out-of-bounds write on a \<open>std::vector\<close>.
\<close>

fun MPHT_fill ::
  "'m pthash \<Rightarrow> 'm \<Rightarrow> u64 list \<Rightarrow> u64 list \<Rightarrow> u64 list \<Rightarrow> error + u64 list" where
  "MPHT_fill P h (key # keys) (v # vals) table =
     (if unat (ph_eval P h key) < length table
      then MPHT_fill P h keys vals (table[unat (ph_eval P h key) := v])
      else Inl Undefined_behaviour)"
| "MPHT_fill P h keys vals table = Inr table"

definition MPHT_build :: "'m pthash \<Rightarrow> u64 list \<Rightarrow> u64 list \<Rightarrow> error + 'm MPHT" where
  "MPHT_build P keys vals =
     (if length keys \<noteq> length vals
      then Inl (Thrown ''Keys and values must have the same size.'')
      else case MPHT_fill P (ph_build P keys) keys vals (replicate (length keys) 0) of
        Inl e \<Rightarrow> Inl e
      | Inr table \<Rightarrow> Inr \<lparr>mphf = ph_build P keys, hashtable = table\<rparr>)"

definition MPHT_find :: "'m pthash \<Rightarrow> 'm MPHT \<Rightarrow> u64 \<Rightarrow> error + u64" where
  "MPHT_find P t key =
     (if unat (ph_eval P (mphf t) key) < length (hashtable t)
      then Inr (hashtable t ! unat (ph_eval P (mphf t) key))
      else Inl Undefined_behaviour)"

subsection \<open>Hashtable sections (\<open>Section_Hashtable\<close>)\<close>

record 'm Section_Hashtable =
  sh_beginning :: nat
  mpht :: "'m MPHT"
  minimizers :: "u64 list"
  positions :: "u64 list"
  nb_mphf :: u64

definition BUFF_CHUNK_SIZE :: nat where
  "BUFF_CHUNK_SIZE = 1 * 1024 * 1024"

text \<open>The bytes of the saved function go to the file in chunks of at most 1 MiB.\<close>

function write_chunks :: "Kero_file \<Rightarrow> byte list \<Rightarrow> error + Kero_file" where
  "write_chunks f bytes =
     (if bytes = [] then Inr f
      else case Kero_file_write f (take BUFF_CHUNK_SIZE bytes) of
        Inl e \<Rightarrow> Inl e
      | Inr f1 \<Rightarrow> write_chunks f1 (drop BUFF_CHUNK_SIZE bytes))"
  by pat_completeness auto
termination
  by (relation "measure (\<lambda>(f, bytes). length bytes)") (auto simp: BUFF_CHUNK_SIZE_def)

declare write_chunks.simps [simp del]

function read_chunks :: "Kero_file \<Rightarrow> nat \<Rightarrow> error + (byte list \<times> Kero_file)" where
  "read_chunks f remaining =
     (if remaining = 0 then Inr ([], f)
      else case Kero_file_read f (min remaining BUFF_CHUNK_SIZE) of
        Inl e \<Rightarrow> Inl e
      | Inr (bs, f1) \<Rightarrow>
          (case read_chunks f1 (remaining - min remaining BUFF_CHUNK_SIZE) of
             Inl e \<Rightarrow> Inl e
           | Inr (rest, f2) \<Rightarrow> Inr (bs @ rest, f2)))"
  by pat_completeness auto
termination
  by (relation "measure (\<lambda>(f, remaining). remaining)") (auto simp: BUFF_CHUNK_SIZE_def)

declare read_chunks.simps [simp del]

fun read_table :: "nat \<Rightarrow> Kero_file \<Rightarrow> error + (u64 list \<times> Kero_file)" where
  "read_table 0 f = Inr ([], f)"
| "read_table (Suc n) f =
     (case Kero_file_read f 8 of
        Inl e \<Rightarrow> Inl e
      | Inr (buff, f1) \<Rightarrow>
          (case read_table n f1 of
             Inl e \<Rightarrow> Inl e
           | Inr (rest, f2) \<Rightarrow> Inr (load_big_endian buff # rest, f2)))"

text \<open>
  In read mode the constructor reads the tag, the saved function (chunk by chunk) and
  the table of values.
\<close>

definition Section_Hashtable_ctor ::
  "'m pthash \<Rightarrow> Kero_file \<Rightarrow> error + ('m Section_Hashtable \<times> Kero_file)" where
  "Section_Hashtable_ctor P f =
     (case Section_ctor f of
        Inl e \<Rightarrow> Inl e
      | Inr (beginning, f1) \<Rightarrow>
          (if is_reader f1 then
             (case Kero_file_read f1 1 of
                Inl e \<Rightarrow> Inl e
              | Inr (type, f2) \<Rightarrow>
                  (if hd type \<noteq> of_char CHR ''h''
                   then Inl (Thrown ''The section do not start with the 'h' char, you can not open a Hashtable section.'')
                   else case Kero_file_read f2 8 of
                     Inl e \<Rightarrow> Inl e
                   | Inr (buff, f3) \<Rightarrow>
                       (case read_chunks f3 (unat (load_big_endian buff)) of
                          Inl e \<Rightarrow> Inl e
                        | Inr (mph_bytes, f4) \<Rightarrow>
                            (case Kero_file_read f4 8 of
                               Inl e \<Rightarrow> Inl e
                             | Inr (buff', f5) \<Rightarrow>
                                 (case read_table (unat (load_big_endian buff')) f5 of
                                    Inl e \<Rightarrow> Inl e
                                  | Inr (table, f6) \<Rightarrow>
                                      Inr (\<lparr>sh_beginning = beginning,
                                            mpht = \<lparr>mphf = ph_load P mph_bytes, hashtable = table\<rparr>,
                                            minimizers = [], positions = [],
                                            nb_mphf = load_big_endian buff\<rparr>, f6))))))
           else Inr (\<lparr>sh_beginning = beginning,
                      mpht = \<lparr>mphf = ph_init P, hashtable = []\<rparr>,
                      minimizers = [], positions = [], nb_mphf = 0\<rparr>, f1)))"

definition Section_Hashtable_reg_sm ::
  "'m Section_Hashtable \<Rightarrow> u64 \<Rightarrow> u64 \<Rightarrow> 'm Section_Hashtable" where
  "Section_Hashtable_reg_sm sh minimizer idx =
     sh\<lparr>minimizers := minimizers sh @ [minimizer], positions := positions sh @ [idx]\<rparr>"

fun write_table :: "Kero_file \<Rightarrow> u64 list \<Rightarrow> error + Kero_file" where
  "write_table f [] = Inr f"
| "write_table f (v # rest) =
     (case Kero_file_write f (store_big_endian 8 v) of
        Inl e \<Rightarrow> Inl e
      | Inr f1 \<Rightarrow> write_table f1 rest)"

definition Section_Hashtable_close ::
  "'m pthash \<Rightarrow> 'm Section_Hashtable \<Rightarrow> Kero_file \<Rightarrow> error + ('m Section_Hashtable \<times> Kero_file)" where
  "Section_Hashtable_close P sh f =
     (if is_writer f \<and> minimizers sh \<noteq> [] then
        (if length (minimizers sh) \<noteq> length (positions sh) then Inl Assert_failed
         else case MPHT_build P (minimizers sh) (positions sh) of
           Inl e \<Rightarrow> Inl e
         | Inr t \<Rightarrow>
        (case Kero_file_write (Kero_file_register_position f (of_char CHR ''h''))
                [of_char CHR ''h''] of
           Inl e \<Rightarrow> Inl e
         | Inr f1 \<Rightarrow>
        (case Kero_file_write f1 (store_big_endian 8 (of_nat (length (ph_save P (mphf t))))) of
           Inl e \<Rightarrow> Inl e
         | Inr f2 \<Rightarrow>
        (case write_chunks f2 (ph_save P (mphf t)) of
           Inl e \<Rightarrow> Inl e
         | Inr f3 \<Rightarrow>
        (case Kero_file_write f3 (store_big_endian 8 (of_nat (length (hashtable t)))) of
           Inl e \<Rightarrow> Inl e
         | Inr f4 \<Rightarrow>
        (case write_table f4 (hashtable t) of
           Inl e \<Rightarrow> Inl e
         | Inr f5 \<Rightarrow> Inr (sh\<lparr>mpht := t\<rparr>, f5)))))))
      else Inr (sh, f))"

subsection \<open>Closing a file: \<open>write_footer\<close> and \<open>close\<close>\<close>

text \<open>The first block of \<open>write_footer\<close>: the hashtable section over the registered minimizers.\<close>

definition write_footer_hashtable ::
  "'m pthash \<Rightarrow> Kero_file \<Rightarrow> error + ('m Section_Hashtable \<times> Kero_file)" where
  "write_footer_hashtable P f =
     (if length (mini_list f) \<noteq> length (mini_pos f) then Inl Assert_failed
      else case Section_Hashtable_ctor P f of
        Inl e \<Rightarrow> Inl e
      | Inr (sh, f1) \<Rightarrow>
          Section_Hashtable_close P
            (foldl (\<lambda>sh (minimizer, pos). Section_Hashtable_reg_sm sh minimizer pos) sh
               (zip (mini_list f) (mini_pos f))) f1)"

definition Kero_file_write_footer :: "'m pthash \<Rightarrow> Kero_file \<Rightarrow> error + Kero_file" where
  "Kero_file_write_footer P f =
     (case write_footer_hashtable P f of
        Inl e \<Rightarrow> Inl e
      | Inr (sh, f1) \<Rightarrow>
     (case Section_Index_ctor f1 of
        Inl e \<Rightarrow> Inl e
      | Inr (si, f2) \<Rightarrow>
     (let position = int (si_beginning si) + 17 + 9 * int (length (section_positions f2)) in
      case Section_Index_close
             (foldl (\<lambda>si (pos, type). Section_Index_register_section si type (pos - position)) si
                (section_positions f2)) f2 of
        Inl e \<Rightarrow> Inl e
      | Inr f3 \<Rightarrow>
     (case Section_GV_ctor f3 of
        Inl e \<Rightarrow> Inl e
      | Inr (sgv, f4) \<Rightarrow>
     (case Section_GV_write_var sgv f4 ''first_index'' (of_nat (si_beginning si)) of
        (sgv1, f5) \<Rightarrow>
     (case Section_GV_write_var sgv1 f5 ''footer_size'' (9 + 2 * (12 + 8)) of
        (sgv2, f6) \<Rightarrow> Section_GV_close sgv2 f6))))))"

definition Kero_file_close :: "'m pthash \<Rightarrow> Kero_file \<Rightarrow> bool \<Rightarrow> error + Kero_file" where
  "Kero_file_close P f write_buffer =
     (if is_writer f then
        (case (if indexed f then Kero_file_write_footer P f else Inr f) of
           Inl e \<Rightarrow> Inl e
         | Inr f1 \<Rightarrow>
        (case Kero_file_write f1 (map of_char ''KERO'') of
           Inl e \<Rightarrow> Inl e
         | Inr f2 \<Rightarrow>
        (case (if write_buffer then
                 (case fs_write (if \<not> writing_started f2
                                 then (fs_open_out f2)\<lparr>writing_started := True\<rparr>
                                 else if tmp_closed f2 then Kero_file_reopen f2 else f2)
                         (take (next_free f2) (file_buffer f2)) of
                    None \<Rightarrow> Inl Exit_failure
                  | Some f3 \<Rightarrow> Inr (f3\<lparr>file_size := file_size f3 + next_free f3, next_free := 0\<rparr>))
               else Inr f2) of
           Inl e \<Rightarrow> Inl e
         | Inr f4 \<Rightarrow>
             Inr (f4\<lparr>fs_is_open := False, tmp_closed := False,
                     is_writer := False, is_reader := False\<rparr>))))
      else Inr (f\<lparr>fs_is_open := False, tmp_closed := False, is_writer := False, is_reader := False\<rparr>))"

subsection \<open>Opening a file for writing\<close>

text \<open>
  The constructor followed by \<open>open("w")\<close>: a buffer of 1 KiB (its first content is
  never read; zeros here), no byte on disk, and the nine bytes of the header prefix
  written at once: signature, version 0.1, the default encoding and two zero flags.
\<close>

definition KERO_VERSION_MAJOR :: byte where "KERO_VERSION_MAJOR = 0"
definition KERO_VERSION_MINOR :: byte where "KERO_VERSION_MINOR = 1"

definition Kero_file_new :: "byte list \<Rightarrow> Kero_file" where
  "Kero_file_new on_disk =
     \<lparr>disk = on_disk, fs_is_open = False, fs_pos = 0, current_position = 0,
      writing_started = False, file_buffer = replicate (2 ^ 10) 0, file_size = 0,
      buffer_size = 2 ^ 10, max_buffer_size = 2 ^ 20, next_free = 0, tmp_closed = False,
      header_over = False, footer_discovery_ended = True, end_position = 0,
      is_writer = False, is_reader = False, footer = None, indexed = False,
      section_positions = [], encoding = [0, 1, 3, 2], metadata_size = 0,
      global_vars = Map.empty, mini_list = [], mini_pos = []\<rparr>"

definition Kero_file_open_w :: "Kero_file \<Rightarrow> error + Kero_file" where
  "Kero_file_open_w f =
     (case Kero_file_write
             (f\<lparr>current_position := 0, is_writer := True, file_size := 0, next_free := 0,
                tmp_closed := False, header_over := False, indexed := False, footer := None,
                footer_discovery_ended := True, writing_started := False\<rparr>)
             (map of_char ''KERO'' @ [KERO_VERSION_MAJOR, KERO_VERSION_MINOR, 0b00011110, 0, 0]) of
        Inl e \<Rightarrow> Inl e
      | Inr f1 \<Rightarrow> Inr (f1\<lparr>indexed := True, end_position := 0\<rparr>))"

subsection \<open>The encoding byte\<close>

text \<open>
  \<open>write_encoding\<close> keeps the two low bits of each code, asserts
  \<open>a != c\<close>, \<open>a != g\<close>, \<open>a != t\<close>, \<open>c != g\<close>, \<open>g != t\<close> and \<open>g != t\<close> once more, and writes
  the packed byte at position 5 of the file.
\<close>

definition Kero_file_write_encoding ::
  "Kero_file \<Rightarrow> byte \<Rightarrow> byte \<Rightarrow> byte \<Rightarrow> byte \<Rightarrow> error + Kero_file" where
  "Kero_file_write_encoding f a c g t =
     (let a = a AND 0b11; c = c AND 0b11; g = g AND 0b11; t = t AND 0b11 in
      if \<not> a \<noteq> c then Inl Assert_failed
      else if \<not> a \<noteq> g then Inl Assert_failed
      else if \<not> a \<noteq> t then Inl Assert_failed
      else if \<not> c \<noteq> g then Inl Assert_failed
      else if \<not> g \<noteq> t then Inl Assert_failed
      else if \<not> g \<noteq> t then Inl Assert_failed
      else Kero_file_write_at (f\<lparr>encoding := [a, c, g, t]\<rparr>)
             [push_bit 6 a OR push_bit 4 c OR push_bit 2 g OR t] 5)"

text \<open>
  \<open>read_encoding\<close> reads one byte, splits it into the four codes and throws when two
  of them are equal.
\<close>

definition Kero_file_read_encoding :: "Kero_file \<Rightarrow> error + Kero_file" where
  "Kero_file_read_encoding f =
     (case Kero_file_read f 1 of
        Inl e \<Rightarrow> Inl e
      | Inr (code, f1) \<Rightarrow>
          (let a = drop_bit 6 (hd code) AND 0b11; c = drop_bit 4 (hd code) AND 0b11;
               g = drop_bit 2 (hd code) AND 0b11; t = hd code AND 0b11
           in if a = c \<or> a = g \<or> a = t \<or> c = g \<or> c = t \<or> g = t
              then Inl (Thrown ''Wrong encoding. The 4 2-bits values must be different.'')
              else Inr (f1\<lparr>encoding := [a, c, g, t]\<rparr>)))"

subsection \<open>A reader over given bytes\<close>

text \<open>
  The state in which \<open>open("r")\<close> leaves a fresh object over a file of the given
  content just before it looks for the footer, standing at \<open>pos\<close> (13 after the
  header of a file without metadata): the stream is open, \<open>end_position\<close> is four
  bytes before the end, and \<open>footer_discovery_ended\<close> has been set to false.
\<close>

definition Kero_file_reader :: "byte list \<Rightarrow> nat \<Rightarrow> Kero_file" where
  "Kero_file_reader content pos =
     (Kero_file_new content)
       \<lparr>fs_is_open := True, fs_pos := pos, current_position := pos,
        file_size := length content, is_reader := True,
        end_position := length content - 4, footer_discovery_ended := False\<rparr>"

section \<open>Block sections\<close>

subsection \<open>Sizes in bytes\<close>

definition bytes_from_bit_array :: "nat \<Rightarrow> nat \<Rightarrow> nat" where
  "bytes_from_bit_array bits_per_elem nb_elem =
     (if bits_per_elem = 0 \<or> nb_elem = 0 then 0
      else as_u64 (sub_u64 (bits_per_elem * nb_elem) 1 div 8 + 1))"

text \<open>
  \<open>static_cast<uint64_t>(ceil(log2(max)))\<close> is computed in double precision. Up to
  \<open>2 ^ 48\<close> the conversion of \<open>max\<close> to \<open>double\<close> is exact, and a \<open>log2\<close> that is exact
  on the powers of two and within one unit in the last place elsewhere has the ceiling
  of the real logarithm: the least \<open>b\<close> with \<open>max \<le> 2 ^ b\<close>, which is \<open>ceil_log2\<close>.
  Above \<open>2 ^ 48\<close> the rounded logarithm of a value just over a power of two can be that
  power itself, and the result depends on the library: \<open>log2_in_range\<close> is the test
  that the constructors make before they use \<open>ceil_log2\<close>. \<open>max = 0\<close> has no
  logarithm and the conversion of the result is undefined.
\<close>

definition log2_in_range :: "nat \<Rightarrow> bool" where
  "log2_in_range n \<longleftrightarrow> n \<le> 2 ^ 48"

fun ceil_log2 :: "nat \<Rightarrow> nat" where
  "ceil_log2 n = (if n \<le> 1 then 0 else Suc (ceil_log2 ((n + 1) div 2)))"

declare ceil_log2.simps [simp del]

definition nb_kmers_bytes_of :: "nat \<Rightarrow> nat" where
  "nb_kmers_bytes_of max_kmers = bytes_from_bit_array (ceil_log2 max_kmers) 1 mod 2 ^ 8"

subsection \<open>Raw sections (\<open>Section_Raw\<close>)\<close>

record Section_Raw =
  sr_beginning :: nat
  sr_nb_blocks :: nat
  sr_remaining_blocks :: nat
  sr_k :: nat
  sr_max :: nat
  sr_data_size :: nat
  sr_nb_kmers_bytes :: nat

definition lookup_var :: "Kero_file \<Rightarrow> string \<Rightarrow> string \<Rightarrow> error + nat" where
  "lookup_var f name msg =
     (case global_vars f name of None \<Rightarrow> Inl (Thrown msg) | Some v \<Rightarrow> Inr (unat v))"

definition Section_Raw_read_section_header ::
  "Section_Raw \<Rightarrow> Kero_file \<Rightarrow> error + (Section_Raw \<times> Kero_file)" where
  "Section_Raw_read_section_header sr f =
     (case Kero_file_read f 1 of
        Inl e \<Rightarrow> Inl e
      | Inr (type, f1) \<Rightarrow>
          (if hd type \<noteq> of_char CHR ''r''
           then Inl (Thrown ''The section do not start with the 'r' char, you can't open a Raw sequence section.'')
           else case Kero_file_read f1 8 of
             Inl e \<Rightarrow> Inl e
           | Inr (buff, f2) \<Rightarrow>
               Inr (sr\<lparr>sr_nb_blocks := unat (load_big_endian buff),
                       sr_remaining_blocks := unat (load_big_endian buff)\<rparr>, f2)))"

definition Section_Raw_ctor :: "Kero_file \<Rightarrow> error + (Section_Raw \<times> Kero_file)" where
  "Section_Raw_ctor f =
     (case Section_ctor f of
        Inl e \<Rightarrow> Inl e
      | Inr (beginning, f1) \<Rightarrow>
     (case lookup_var f1 ''k'' ''Impossible to read the raw section due to missing k variable'' of
        Inl e \<Rightarrow> Inl e
      | Inr k \<Rightarrow>
     (case lookup_var f1 ''max'' ''Impossible to read the raw section due to missing max variable'' of
        Inl e \<Rightarrow> Inl e
      | Inr max_kmers \<Rightarrow>
     (case lookup_var f1 ''data_size''
             ''Impossible to read the raw section due to missing data_size variable'' of
        Inl e \<Rightarrow> Inl e
      | Inr data_size \<Rightarrow>
     (if max_kmers = 0 then Inl Undefined_behaviour
      else if \<not> log2_in_range max_kmers then Inl Unspecified
      else
        (let sr = \<lparr>sr_beginning = beginning, sr_nb_blocks = 0, sr_remaining_blocks = 0,
                   sr_k = k, sr_max = max_kmers, sr_data_size = data_size,
                   sr_nb_kmers_bytes = nb_kmers_bytes_of max_kmers\<rparr>
         in case (if is_reader f1 then Section_Raw_read_section_header sr f1 else Inr (sr, f1)) of
              Inl e \<Rightarrow> Inl e
            | Inr (sr1, f2) \<Rightarrow>
                (if is_writer f2 then
                   (case Kero_file_write
                           (if indexed f2 then Kero_file_register_position f2 (of_char CHR ''r'')
                            else f2) [of_char CHR ''r''] of
                      Inl e \<Rightarrow> Inl e
                    | Inr f3 \<Rightarrow>
                        (case Kero_file_write f3 (rev (store_big_endian 8 (of_nat (sr_nb_blocks sr1)))) of
                           Inl e \<Rightarrow> Inl e
                         | Inr f4 \<Rightarrow> Inr (sr1, f4)))
                 else Inr (sr1, f2))))))))"

text \<open>
  \<open>write_compacted_sequence(seq, seq_size, data_array)\<close>: the count of k-mers on
  \<open>nb_kmers_bytes\<close> bytes, the \<open>(seq_size + 3) / 4\<close> bytes of the sequence and the
  \<open>data_size * nb_kmers\<close> bytes of data. The arrays must hold that many bytes.
\<close>

definition Section_Raw_write_compacted_sequence ::
  "Section_Raw \<Rightarrow> Kero_file \<Rightarrow> byte list \<Rightarrow> nat \<Rightarrow> byte list \<Rightarrow> error + (Section_Raw \<times> Kero_file)" where
  "Section_Raw_write_compacted_sequence sr f seq seq_size data_array =
     (let nb_kmers = as_u64 (sub_u64 seq_size (sr_k sr) + 1);
          seq_bytes_needed = as_u64 (seq_size + 3) div 4;
          data_bytes_needed = as_u64 (sr_data_size sr * nb_kmers)
      in if length seq < seq_bytes_needed \<or> length data_array < data_bytes_needed
         then Inl Undefined_behaviour
         else case Kero_file_write f (store_big_endian (sr_nb_kmers_bytes sr) (of_nat nb_kmers)) of
           Inl e \<Rightarrow> Inl e
         | Inr f1 \<Rightarrow>
        (case Kero_file_write f1 (take seq_bytes_needed seq) of
           Inl e \<Rightarrow> Inl e
         | Inr f2 \<Rightarrow>
        (case Kero_file_write f2 (take data_bytes_needed data_array) of
           Inl e \<Rightarrow> Inl e
         | Inr f3 \<Rightarrow> Inr (sr\<lparr>sr_nb_blocks := as_u64 (sr_nb_blocks sr + 1)\<rparr>, f3))))"

text \<open>
  \<open>read_compacted_sequence(seq, data)\<close> returns the count of k-mers; the bytes it puts
  into \<open>seq\<close> and \<open>data\<close> are returned with it.
\<close>

definition Section_Raw_read_compacted_sequence ::
  "Section_Raw \<Rightarrow> Kero_file \<Rightarrow> error + (nat \<times> byte list \<times> byte list \<times> Section_Raw \<times> Kero_file)" where
  "Section_Raw_read_compacted_sequence sr f =
     (case (if sr_nb_kmers_bytes sr \<noteq> 0
            then (case Kero_file_read f (sr_nb_kmers_bytes sr) of
                    Inl e \<Rightarrow> Inl e
                  | Inr (buff, f1) \<Rightarrow> Inr (unat (load_big_endian buff), f1))
            else Inr (1, f)) of
        Inl e \<Rightarrow> Inl e
      | Inr (nb_kmers_in_block, f1) \<Rightarrow>
     (let seq_size = sub_u64 (nb_kmers_in_block + sr_k sr) 1;
          seq_bytes_needed = as_u64 (seq_size + 3) div 4;
          data_bytes_used = as_u64 (sr_data_size sr * nb_kmers_in_block)
      in case Kero_file_read f1 seq_bytes_needed of
           Inl e \<Rightarrow> Inl e
         | Inr (seq, f2) \<Rightarrow>
        (case Kero_file_read f2 data_bytes_used of
           Inl e \<Rightarrow> Inl e
         | Inr (data, f3) \<Rightarrow>
             Inr (nb_kmers_in_block, seq, data,
                  sr\<lparr>sr_remaining_blocks := sub_u64 (sr_remaining_blocks sr) 1\<rparr>, f3))))"

subsection \<open>Shifts on packed sequences\<close>

text \<open>
  \<open>leftshift8(bitarray, length, bitshift)\<close> and \<open>rightshift8\<close> shift a whole byte
  array by less than 8 bits, carrying bits across bytes. The loops run in the direction
  in which the neighbour they read is still the old one, so byte \<open>i\<close> of the result is
  made from the old bytes \<open>i\<close> and \<open>i + 1\<close> (left) or \<open>i - 1\<close> and \<open>i\<close> (right). Every call
  in the source passes twice a number of nucleotides below 4, as the \<open>assert\<close> asks.
\<close>

definition leftshift8 :: "byte list \<Rightarrow> nat \<Rightarrow> byte list" where
  "leftshift8 bitarray bitshift =
     map (\<lambda>i. if i < length bitarray - 1
               then push_bit bitshift (bitarray ! i) OR drop_bit (8 - bitshift) (bitarray ! (i + 1))
               else push_bit bitshift (bitarray ! i))
         [0..<length bitarray]"

definition rightshift8 :: "byte list \<Rightarrow> nat \<Rightarrow> byte list" where
  "rightshift8 bitarray bitshift =
     map (\<lambda>i. if 0 < i
               then push_bit (8 - bitshift) (bitarray ! (i - 1)) OR drop_bit bitshift (bitarray ! i)
               else drop_bit bitshift (bitarray ! i))
         [0..<length bitarray]"

text \<open>
  \<open>fusion8\<close>: the \<open>merge_index\<close> high bits of the left byte, the other bits of the
  right one.
\<close>

definition fusion8 :: "byte \<Rightarrow> byte \<Rightarrow> nat \<Rightarrow> byte" where
  "fusion8 left_bits right_bits merge_index =
     (let mask = push_bit (8 - merge_index) 0xFF
      in (left_bits AND mask) OR (right_bits AND NOT mask))"

text \<open>A call on the \<open>len\<close> bytes that start at \<open>bitarray + start\<close>.\<close>

definition on_range :: "(byte list \<Rightarrow> byte list) \<Rightarrow> nat \<Rightarrow> nat \<Rightarrow> byte list \<Rightarrow> byte list" where
  "on_range g start len bitarray =
     take start bitarray @ g (take len (drop start bitarray)) @ drop (start + len) bitarray"

subsection \<open>Taking the minimizer out of a sequence and putting it back\<close>

text \<open>
  The sequence that \<open>Section_Minimizer::write_compacted_sequence\<close> builds in
  \<open>seq_copy\<close> and hands, with \<open>seq_size - m\<close>, to
  \<open>write_compacted_sequence_without_mini\<close>, which keeps its first
  \<open>bytes_from_bit_array(2, seq_size - m)\<close> bytes.
\<close>

definition move_suffix :: "byte list \<Rightarrow> nat \<Rightarrow> nat \<Rightarrow> nat \<Rightarrow> byte list" where
  "move_suffix seq_copy mini_start_byte suff_start_byte suff_bytes =
     foldl (\<lambda>s i. s[mini_start_byte + i := s ! (suff_start_byte + i)]) seq_copy [0..<suff_bytes]"

definition compact_sequence :: "nat \<Rightarrow> byte list \<Rightarrow> nat \<Rightarrow> nat \<Rightarrow> byte list" where
  "compact_sequence m seq seq_size mini_position =
     (let seq_bytes = bytes_from_bit_array 2 seq_size;
          left_offset_nucl = as_uint ((4 - seq_size mod 4) mod 4);
          seq_copy = take seq_bytes seq;
          mini_start_byte = as_uint (as_u64 (mini_position + left_offset_nucl) div 4);
          suff_start_byte = as_uint (as_u64 (mini_position + m + left_offset_nucl) div 4);
          suff_bytes = as_uint (sub_u64 seq_bytes suff_start_byte);
          seq_copy = move_suffix seq_copy mini_start_byte suff_start_byte suff_bytes;
          mini_offset = as_uint (as_u64 (mini_position + left_offset_nucl) mod 4);
          suff_offset = as_uint (as_u64 (mini_position + m + left_offset_nucl) mod 4);
          seq_copy =
            (if mini_offset < suff_offset
             then on_range (\<lambda>b. leftshift8 b ((suff_offset - mini_offset) * 2))
                    mini_start_byte (sub_u64 seq_bytes mini_start_byte) seq_copy
             else on_range (\<lambda>b. rightshift8 b ((mini_offset - suff_offset) * 2))
                    mini_start_byte (sub_u64 seq_bytes mini_start_byte) seq_copy);
          seq_copy = seq_copy[mini_start_byte :=
                       fusion8 (seq ! mini_start_byte) (seq_copy ! mini_start_byte) (mini_offset * 2)];
          seq_copy = leftshift8 seq_copy (left_offset_nucl * 2);
          seq_copy = rightshift8 seq_copy (((4 - (sub_u64 seq_size m mod 4)) mod 4) * 2)
      in seq_copy)"

text \<open>
  \<open>Section_Minimizer::add_minimizer(nb_kmer, seq, mini_position)\<close> on a buffer \<open>seq\<close> whose
  first bytes hold the sequence without its minimizer; \<open>minimizer\<close> is the member array
  of \<open>nb_bytes_mini\<close> bytes. The result is the buffer after the call.
\<close>

definition merge_bytes :: "byte list \<Rightarrow> nat \<Rightarrow> byte list \<Rightarrow> nat \<Rightarrow> byte list" where
  "merge_bytes seq start src n =
     foldl (\<lambda>s idx. s[start + idx := src ! idx]) seq [1..<n]"

definition add_minimizer ::
  "nat \<Rightarrow> nat \<Rightarrow> byte list \<Rightarrow> nat \<Rightarrow> nat \<Rightarrow> byte list \<Rightarrow> nat \<Rightarrow> byte list" where
  "add_minimizer k m minimizer nb_bytes_mini nb_kmer seq mini_position =
     (let seq_size = sub_u64 (nb_kmer + k) 1;
          seq_bytes = bytes_from_bit_array 2 seq_size;
          seq_left_offset = (4 - seq_size mod 4) mod 4;
          no_mini_size = sub_u64 seq_size m;
          no_mini_bytes = bytes_from_bit_array 2 no_mini_size;
          no_mini_left_offset = (4 - no_mini_size mod 4) mod 4;
          seq = on_range (\<lambda>b. leftshift8 b (no_mini_left_offset * 2)) 0 no_mini_bytes seq;
          suff_nucl = as_uint (sub_u64 (sub_u64 seq_size m) mini_position);
          no_mini_suff_start_nucl = as_uint mini_position;
          no_mini_suff_start_byte = no_mini_suff_start_nucl div 4;
          no_mini_suff_bytes = as_uint (sub_u64 no_mini_bytes no_mini_suff_start_byte);
          suffix = memcpy (replicate seq_bytes 0) 0
                     (take no_mini_suff_bytes (drop no_mini_suff_start_byte seq));
          no_mini_suff_offset = no_mini_suff_start_nucl mod 4;
          suffix = on_range (\<lambda>b. leftshift8 b (no_mini_suff_offset * 2)) 0 no_mini_suff_bytes suffix;
          mini = memcpy (replicate seq_bytes 0) 0 (take nb_bytes_mini minimizer);
          mini_offset = as_uint ((4 - m mod 4) mod 4);
          mini = on_range (\<lambda>b. leftshift8 b (mini_offset * 2)) 0 nb_bytes_mini mini;
          final_mini_start_nucl = as_uint mini_position;
          final_mini_start_byte = as_uint (as_u64 mini_position div 4);
          final_mini_offset = final_mini_start_nucl mod 4;
          final_mini_byte_size = as_uint (as_u64 (m + final_mini_offset + 3) div 4);
          mini = on_range (\<lambda>b. rightshift8 b (final_mini_offset * 2)) 0 seq_bytes mini;
          seq = seq[final_mini_start_byte :=
                  fusion8 (seq ! final_mini_start_byte) (mini ! 0) (final_mini_offset * 2)];
          seq = merge_bytes seq final_mini_start_byte mini final_mini_byte_size;
          final_suff_start_nucl = as_uint (final_mini_start_nucl + m);
          final_suff_start_byte = final_suff_start_nucl div 4;
          final_suff_offset = final_suff_start_nucl mod 4;
          final_suff_byte_size = as_uint ((suff_nucl + final_suff_offset + 3) mod 2 ^ 32 div 4);
          seq =
            (if 0 < final_suff_byte_size then
               (let suffix = on_range (\<lambda>b. rightshift8 b (final_suff_offset * 2)) 0 seq_bytes suffix;
                    seq = seq[final_suff_start_byte :=
                            fusion8 (seq ! final_suff_start_byte) (suffix ! 0) (final_suff_offset * 2)]
                in merge_bytes seq final_suff_start_byte suffix final_suff_byte_size)
             else seq)
      in on_range (\<lambda>b. rightshift8 b (seq_left_offset * 2)) 0 seq_bytes seq)"

subsection \<open>Vertical minimizer sections (\<open>Section_Minimizer\<close>)\<close>

text \<open>
  The integer compression library is a collaborator given from outside: the two
  encoders and the two decoders (the decoders are told how many elements to produce).
\<close>

record codec =
  p4nenc64 :: "u64 list \<Rightarrow> byte list"
  p4nenc8 :: "byte list \<Rightarrow> byte list"
  p4ndec64 :: "byte list \<Rightarrow> nat \<Rightarrow> u64 list"
  p4ndec8 :: "byte list \<Rightarrow> nat \<Rightarrow> byte list"

text \<open>
  The members of the class. Those whose source name is a single letter or a constant
  of the logic carry the prefix \<open>sm_\<close>.
\<close>

record Section_Minimizer =
  sm_beginning :: nat
  sm_nb_blocks :: nat
  sm_remaining_blocks :: nat
  sm_k :: nat
  sm_m :: nat
  sm_max :: nat
  sm_data_size :: nat
  sm_minimizer :: "byte list"
  sm_nb_kmers_bytes :: nat
  sm_nb_bytes_mini :: nat
  sm_mini_pos_bytes :: nat
  n_col_offset :: nat
  m_idx_col_offset :: nat
  seq_col_offset :: nat
  data_col_offset :: nat
  start_pos :: nat
  n_value_buffer :: "u64 list"
  m_idx_buffer :: "u64 list"
  seq_buffer :: "byte list"
  data_buffer :: "byte list"
  cur_skmer_idx :: nat
  last_n_pos :: nat
  last_m_idx_pos :: nat
  last_seq_pos :: nat
  last_data_pos :: nat

text \<open>
  \<open>kero::mask_mini(const uint8_t* mini_arr, uint64_t m)\<close>: the bytes of the minimizer
  folded into 64 bits, most significant first, then masked. The byte count is computed
  in 64 bits and converted to \<open>int\<close>; a negative count runs the loop zero times.
\<close>

definition mask_mini_arr :: "byte list \<Rightarrow> nat \<Rightarrow> u64 option" where
  "mask_mini_arr mini_arr m =
     (let nb = as_uint (as_u64 (sub_u64 (2 * m) 1 div 8 + 1));
          nb_bytes_mini = (if nb < 2 ^ 31 then nb else 0)
      in mask_mini (foldl (\<lambda>minimizer b. push_bit 8 minimizer + ucast b) 0
                      (take nb_bytes_mini mini_arr)) (of_nat m))"

definition Section_Minimizer_read_section_header ::
  "Section_Minimizer \<Rightarrow> Kero_file \<Rightarrow> error + (Section_Minimizer \<times> Kero_file)" where
  "Section_Minimizer_read_section_header s f =
     (case Kero_file_read f 1 of
        Inl e \<Rightarrow> Inl e
      | Inr (type, f1) \<Rightarrow>
     (if hd type \<noteq> of_char CHR ''M''
      then Inl (Thrown ''The section do not start with the 'M' char, you can't open a vertical minimizer sequence section.'')
      else case Kero_file_read f1 (sm_nb_bytes_mini s) of
        Inl e \<Rightarrow> Inl e
      | Inr (mini, f2) \<Rightarrow>
     (case Kero_file_read f2 8 of
        Inl e \<Rightarrow> Inl e
      | Inr (b0, f3) \<Rightarrow>
     (case Kero_file_read f3 8 of
        Inl e \<Rightarrow> Inl e
      | Inr (b1, f4) \<Rightarrow>
     (case Kero_file_read f4 8 of
        Inl e \<Rightarrow> Inl e
      | Inr (b2, f5) \<Rightarrow>
     (case Kero_file_read f5 8 of
        Inl e \<Rightarrow> Inl e
      | Inr (b3, f6) \<Rightarrow>
     (case Kero_file_read f6 8 of
        Inl e \<Rightarrow> Inl e
      | Inr (b4, f7) \<Rightarrow>
          Inr (s\<lparr>sm_minimizer := mini,
                 sm_nb_blocks := unat (load_big_endian b0),
                 sm_remaining_blocks := unat (load_big_endian b0),
                 n_col_offset := as_u64 (unat (load_big_endian b1) + start_pos s),
                 m_idx_col_offset := as_u64 (unat (load_big_endian b2) + start_pos s),
                 data_col_offset := as_u64 (unat (load_big_endian b3) + start_pos s),
                 seq_col_offset := as_u64 (unat (load_big_endian b4) + start_pos s)\<rparr>, f7))))))))"

definition Section_Minimizer_ctor ::
  "Kero_file \<Rightarrow> error + (Section_Minimizer \<times> Kero_file)" where
  "Section_Minimizer_ctor f =
     (case Section_ctor f of
        Inl e \<Rightarrow> Inl e
      | Inr (beginning, f1) \<Rightarrow>
     (case lookup_var f1 ''k''
             ''Impossible to read the minimizer section due to missing k variable'' of
        Inl e \<Rightarrow> Inl e
      | Inr k \<Rightarrow>
     (case lookup_var f1 ''m''
             ''Impossible to read the minimizer section due to missing m variable'' of
        Inl e \<Rightarrow> Inl e
      | Inr m \<Rightarrow>
     (case lookup_var f1 ''max''
             ''Impossible to read the minimizer section due to missing max variable'' of
        Inl e \<Rightarrow> Inl e
      | Inr max_kmers \<Rightarrow>
     (case lookup_var f1 ''data_size''
             ''Impossible to read the minimizer section due to missing data_size variable'' of
        Inl e \<Rightarrow> Inl e
      | Inr data_size \<Rightarrow>
     (if max_kmers = 0 \<or> sub_u64 (k + max_kmers) 1 = 0 then Inl Undefined_behaviour
      else if \<not> log2_in_range max_kmers \<or> \<not> log2_in_range (sub_u64 (k + max_kmers) 1)
      then Inl Unspecified
      else
        (let nb_bytes_mini = bytes_from_bit_array 2 m mod 2 ^ 8;
             s = \<lparr>sm_beginning = beginning, sm_nb_blocks = 0, sm_remaining_blocks = 0,
                  sm_k = k, sm_m = m, sm_max = max_kmers, sm_data_size = data_size,
                  sm_minimizer = replicate nb_bytes_mini 0,
                  sm_nb_kmers_bytes = nb_kmers_bytes_of max_kmers,
                  sm_nb_bytes_mini = nb_bytes_mini,
                  sm_mini_pos_bytes =
                    bytes_from_bit_array (ceil_log2 (sub_u64 (k + max_kmers) 1) mod 2 ^ 8) 1 mod 2 ^ 8,
                  n_col_offset = 0, m_idx_col_offset = 0, seq_col_offset = 0, data_col_offset = 0,
                  start_pos = Kero_file_tellp f1,
                  n_value_buffer = [], m_idx_buffer = [], seq_buffer = [], data_buffer = [],
                  cur_skmer_idx = 0, last_n_pos = 0, last_m_idx_pos = 0, last_seq_pos = 0,
                  last_data_pos = 0\<rparr>
         in if is_reader f1 then Section_Minimizer_read_section_header s f1
            else Inr (s, f1))))))))"

definition Section_Minimizer_write_section_header ::
  "Section_Minimizer \<Rightarrow> Kero_file \<Rightarrow> error + (Section_Minimizer \<times> Kero_file)" where
  "Section_Minimizer_write_section_header s f =
     (case Kero_file_write f [of_char CHR ''M''] of
        Inl e \<Rightarrow> Inl e
      | Inr f1 \<Rightarrow>
     (case Kero_file_write f1 (take (sm_nb_bytes_mini s) (sm_minimizer s)) of
        Inl e \<Rightarrow> Inl e
      | Inr f2 \<Rightarrow>
     (case Kero_file_write f2 (store_big_endian 8 (of_nat (sm_nb_blocks s))) of
        Inl e \<Rightarrow> Inl e
      | Inr f3 \<Rightarrow>
     (case Kero_file_write f3 (replicate 8 0) of
        Inl e \<Rightarrow> Inl e
      | Inr f4 \<Rightarrow>
     (case Kero_file_write f4 (replicate 8 0) of
        Inl e \<Rightarrow> Inl e
      | Inr f5 \<Rightarrow>
     (case Kero_file_write f5 (replicate 8 0) of
        Inl e \<Rightarrow> Inl e
      | Inr f6 \<Rightarrow>
     (case Kero_file_write f6 (replicate 8 0) of
        Inl e \<Rightarrow> Inl e
      | Inr f7 \<Rightarrow>
          Inr (s\<lparr>n_col_offset := Kero_file_tellp f3,
                 m_idx_col_offset := Kero_file_tellp f4,
                 data_col_offset := Kero_file_tellp f5,
                 seq_col_offset := Kero_file_tellp f6\<rparr>, f7))))))))"

definition Section_Minimizer_write_columns ::
  "codec \<Rightarrow> Section_Minimizer \<Rightarrow> Kero_file \<Rightarrow> error + (Section_Minimizer \<times> Kero_file)" where
  "Section_Minimizer_write_columns C s f =
     (case Kero_file_write f
             (store_big_endian 8 (of_nat (length (p4nenc64 C (n_value_buffer s))))) of
        Inl e \<Rightarrow> Inl e
      | Inr f1 \<Rightarrow>
     (case Kero_file_write f1 (p4nenc64 C (n_value_buffer s)) of
        Inl e \<Rightarrow> Inl e
      | Inr f2 \<Rightarrow>
     (case Kero_file_write f2
             (store_big_endian 8 (of_nat (length (p4nenc64 C (m_idx_buffer s))))) of
        Inl e \<Rightarrow> Inl e
      | Inr f3 \<Rightarrow>
     (case Kero_file_write f3 (p4nenc64 C (m_idx_buffer s)) of
        Inl e \<Rightarrow> Inl e
      | Inr f4 \<Rightarrow>
     (case Kero_file_write f4 (store_big_endian 8 (of_nat (length (data_buffer s)))) of
        Inl e \<Rightarrow> Inl e
      | Inr f5 \<Rightarrow>
     (case Kero_file_write f5
             (store_big_endian 8 (of_nat (length (p4nenc8 C (data_buffer s))))) of
        Inl e \<Rightarrow> Inl e
      | Inr f6 \<Rightarrow>
     (case Kero_file_write f6 (p4nenc8 C (data_buffer s)) of
        Inl e \<Rightarrow> Inl e
      | Inr f7 \<Rightarrow>
     (case Kero_file_write f7 (seq_buffer s) of
        Inl e \<Rightarrow> Inl e
      | Inr f8 \<Rightarrow>
          Inr (s\<lparr>n_col_offset := Kero_file_tellp f,
                 m_idx_col_offset := Kero_file_tellp f2,
                 data_col_offset := Kero_file_tellp f4,
                 seq_col_offset := Kero_file_tellp f7\<rparr>, f8)))))))))"

definition Section_Minimizer_backfill_column_offsets ::
  "Section_Minimizer \<Rightarrow> Kero_file \<Rightarrow> error + Kero_file" where
  "Section_Minimizer_backfill_column_offsets s f =
     (let original_pos = Kero_file_tellp f;
          n_col_offset_idx = as_u64 (start_pos s + 1 + sm_nb_bytes_mini s + 8)
      in case Kero_file_write_at f
                (store_big_endian 8 (of_nat (sub_u64 (n_col_offset s) (start_pos s))))
                n_col_offset_idx of
        Inl e \<Rightarrow> Inl e
      | Inr f1 \<Rightarrow>
     (case Kero_file_write_at f1
             (store_big_endian 8 (of_nat (sub_u64 (m_idx_col_offset s) (start_pos s))))
             (as_u64 (n_col_offset_idx + 8)) of
        Inl e \<Rightarrow> Inl e
      | Inr f2 \<Rightarrow>
     (case Kero_file_write_at f2
             (store_big_endian 8 (of_nat (sub_u64 (data_col_offset s) (start_pos s))))
             (as_u64 (n_col_offset_idx + 16)) of
        Inl e \<Rightarrow> Inl e
      | Inr f3 \<Rightarrow>
     (case Kero_file_write_at f3
             (store_big_endian 8 (of_nat (sub_u64 (seq_col_offset s) (start_pos s))))
             (as_u64 (n_col_offset_idx + 24)) of
        Inl e \<Rightarrow> Inl e
      | Inr f4 \<Rightarrow> Kero_file_jump_to f4 original_pos False))))"

definition Section_Minimizer_write_minimizer ::
  "Section_Minimizer \<Rightarrow> byte list \<Rightarrow> Section_Minimizer" where
  "Section_Minimizer_write_minimizer s minimizer =
     s\<lparr>sm_minimizer := memcpy (sm_minimizer s) 0 (take (sm_nb_bytes_mini s) minimizer)\<rparr>"

definition Section_Minimizer_write_compacted_sequence_without_mini ::
  "Section_Minimizer \<Rightarrow> byte list \<Rightarrow> nat \<Rightarrow> nat \<Rightarrow> byte list \<Rightarrow> Section_Minimizer" where
  "Section_Minimizer_write_compacted_sequence_without_mini s seq seq_size mini_position data_array =
     (let nb_kmers = as_u64 (sub_u64 (seq_size + sm_m s) (sm_k s) + 1);
          data_bytes = as_u64 (sm_data_size s * nb_kmers);
          seq_bytes = bytes_from_bit_array 2 seq_size
      in s\<lparr>n_value_buffer := n_value_buffer s @ [of_nat nb_kmers],
            m_idx_buffer := m_idx_buffer s @ [of_nat mini_position],
            data_buffer := data_buffer s @ take data_bytes data_array,
            seq_buffer := seq_buffer s @ take seq_bytes seq,
            sm_nb_blocks := as_u64 (sm_nb_blocks s + 1)\<rparr>)"

definition Section_Minimizer_write_compacted_sequence ::
  "Section_Minimizer \<Rightarrow> byte list \<Rightarrow> nat \<Rightarrow> nat \<Rightarrow> byte list \<Rightarrow> Section_Minimizer" where
  "Section_Minimizer_write_compacted_sequence s seq seq_size mini_position data_array =
     Section_Minimizer_write_compacted_sequence_without_mini s
       (compact_sequence (sm_m s) seq seq_size mini_position)
       (sub_u64 seq_size (sm_m s)) mini_position data_array"

definition Section_Minimizer_add_minimizer ::
  "Section_Minimizer \<Rightarrow> nat \<Rightarrow> byte list \<Rightarrow> nat \<Rightarrow> byte list" where
  "Section_Minimizer_add_minimizer s nb_kmer seq mini_position =
     add_minimizer (sm_k s) (sm_m s) (sm_minimizer s) (sm_nb_bytes_mini s) nb_kmer seq mini_position"

text \<open>
  A column as the reader loads it: jump to its offset, read the compressed size and
  that many bytes, and pad them with zeros to 8 bytes for the decoder.
\<close>

definition read_column :: "Kero_file \<Rightarrow> nat \<Rightarrow> error + (byte list \<times> Kero_file)" where
  "read_column f offset =
     (case Kero_file_jump_to f offset False of
        Inl e \<Rightarrow> Inl e
      | Inr f1 \<Rightarrow>
     (case Kero_file_read f1 8 of
        Inl e \<Rightarrow> Inl e
      | Inr (buff, f2) \<Rightarrow>
     (case Kero_file_read f2 (unat (load_big_endian buff)) of
        Inl e \<Rightarrow> Inl e
      | Inr (compressed, f3) \<Rightarrow>
          Inr (compressed @ replicate (8 - length compressed) 0, f3))))"

definition load_columns ::
  "codec \<Rightarrow> Section_Minimizer \<Rightarrow> Kero_file \<Rightarrow> error + (Section_Minimizer \<times> Kero_file)" where
  "load_columns C s f =
     (let s = s\<lparr>last_n_pos := 0, last_m_idx_pos := 0,
                last_data_pos := (if 0 < sm_data_size s then 0 else last_data_pos s),
                last_seq_pos := seq_col_offset s\<rparr>
      in case read_column f (n_col_offset s) of
        Inl e \<Rightarrow> Inl e
      | Inr (compressed_n_buf, f1) \<Rightarrow>
     (case read_column f1 (m_idx_col_offset s) of
        Inl e \<Rightarrow> Inl e
      | Inr (compressed_m_idx_buf, f2) \<Rightarrow>
     (let s = s\<lparr>n_value_buffer := p4ndec64 C compressed_n_buf (sm_nb_blocks s),
                m_idx_buffer := p4ndec64 C compressed_m_idx_buf (sm_nb_blocks s)\<rparr>
      in if 0 < sm_data_size s then
           (case Kero_file_jump_to f2 (data_col_offset s) False of
              Inl e \<Rightarrow> Inl e
            | Inr f3 \<Rightarrow>
           (case Kero_file_read f3 8 of
              Inl e \<Rightarrow> Inl e
            | Inr (buff, f4) \<Rightarrow>
           (case Kero_file_read f4 8 of
              Inl e \<Rightarrow> Inl e
            | Inr (buff', f5) \<Rightarrow>
           (case Kero_file_read f5 (unat (load_big_endian buff')) of
              Inl e \<Rightarrow> Inl e
            | Inr (compressed, f6) \<Rightarrow>
                Inr (s\<lparr>data_buffer :=
                         p4ndec8 C (compressed @ replicate (8 - length compressed) 0)
                           (unat (load_big_endian buff))\<rparr>, f6)))))
         else Inr (s, f2))))"

text \<open>
  \<open>read_compacted_sequence_without_mini(seq, data, mini_pos)\<close>. The output buffers
  \<open>seq\<close> and \<open>data\<close> (which may be the null pointer) and the reference \<open>mini_pos\<close> are
  arguments and come back with the returned count, the section and the file.
\<close>

definition Section_Minimizer_read_compacted_sequence_without_mini ::
  "codec \<Rightarrow> Section_Minimizer \<Rightarrow> Kero_file \<Rightarrow> byte list \<Rightarrow> byte list option \<Rightarrow> u64 \<Rightarrow>
     error + (nat \<times> byte list \<times> byte list option \<times> u64 \<times> Section_Minimizer \<times> Kero_file)" where
  "Section_Minimizer_read_compacted_sequence_without_mini C s f seq data mini_position =
     (if sm_nb_blocks s \<le> cur_skmer_idx s then Inr (0, seq, data, mini_position, s, f)
      else case (if cur_skmer_idx s = 0 then load_columns C s f else Inr (s, f)) of
        Inl e \<Rightarrow> Inl e
      | Inr (s1, f1) \<Rightarrow>
     (if length (n_value_buffer s1) \<le> last_n_pos s1
         \<or> length (m_idx_buffer s1) \<le> last_m_idx_pos s1
      then Inl Undefined_behaviour
      else
        (let n = unat (n_value_buffer s1 ! last_n_pos s1);
             mini_position' = m_idx_buffer s1 ! last_m_idx_pos s1;
             s2 = s1\<lparr>last_n_pos := as_u64 (last_n_pos s1 + 1),
                      last_m_idx_pos := as_u64 (last_m_idx_pos s1 + 1)\<rparr>;
             nb_data_bytes = as_u64 (sm_data_size s2 * n);
             copies = (data \<noteq> None \<and> 0 < sm_data_size s2);
             data' = (if copies
                      then map_option
                             (\<lambda>d. memcpy d 0 (take nb_data_bytes (drop (last_data_pos s2) (data_buffer s2))))
                             data
                      else data);
             s3 = (if copies then s2\<lparr>last_data_pos := as_u64 (last_data_pos s2 + nb_data_bytes)\<rparr>
                   else s2);
             nb_seq_bytes = bytes_from_bit_array 2 (sub_u64 (sub_u64 (n + sm_k s3) (sm_m s3)) 1)
         in if copies \<and> length (data_buffer s2) < last_data_pos s2 + nb_data_bytes
            then Inl Undefined_behaviour
            else case Kero_file_jump_to f1 (last_seq_pos s3) False of
              Inl e \<Rightarrow> Inl e
            | Inr f2 \<Rightarrow>
           (case Kero_file_read f2 nb_seq_bytes of
              Inl e \<Rightarrow> Inl e
            | Inr (bytes, f3) \<Rightarrow>
                Inr (n, memcpy seq 0 bytes, data', mini_position',
                     s3\<lparr>last_seq_pos := as_u64 (last_seq_pos s3 + nb_seq_bytes),
                        cur_skmer_idx := as_u64 (cur_skmer_idx s3 + 1),
                        sm_remaining_blocks := sub_u64 (sm_remaining_blocks s3) 1\<rparr>, f3)))))"

definition Section_Minimizer_read_compacted_sequence ::
  "codec \<Rightarrow> Section_Minimizer \<Rightarrow> Kero_file \<Rightarrow> byte list \<Rightarrow> byte list option \<Rightarrow>
     error + (nat \<times> byte list \<times> byte list option \<times> Section_Minimizer \<times> Kero_file)" where
  "Section_Minimizer_read_compacted_sequence C s f seq data =
     (case Section_Minimizer_read_compacted_sequence_without_mini C s f seq data 0 of
        Inl e \<Rightarrow> Inl e
      | Inr (nb_kmers_in_skmer, seq', data', mini_position, s', f') \<Rightarrow>
          Inr (nb_kmers_in_skmer,
               Section_Minimizer_add_minimizer s' nb_kmers_in_skmer seq' (unat mini_position),
               data', s', f'))"

definition Section_Minimizer_jump_sequence ::
  "codec \<Rightarrow> Section_Minimizer \<Rightarrow> Kero_file \<Rightarrow> error + (Section_Minimizer \<times> Kero_file)" where
  "Section_Minimizer_jump_sequence C s f =
     (case Section_Minimizer_read_compacted_sequence_without_mini C s f
             (replicate (bytes_from_bit_array 2 (sub_u64 (sm_k s + sm_max s) 1)) 0)
             (Some (replicate (as_u64 (sm_max s * sm_data_size s)) 0)) 0 of
        Inl e \<Rightarrow> Inl e
      | Inr (n, seq, data, mini_position, s', f') \<Rightarrow> Inr (s', f'))"

partial_function (option) jump_remaining ::
  "codec \<Rightarrow> Section_Minimizer \<Rightarrow> Kero_file \<Rightarrow> (error + (Section_Minimizer \<times> Kero_file)) option" where
  "jump_remaining C s f =
     (if 0 < sm_remaining_blocks s then
        (case Section_Minimizer_jump_sequence C s f of
           Inl e \<Rightarrow> Some (Inl e)
         | Inr (s', f') \<Rightarrow> jump_remaining C s' f')
      else Some (Inr (s, f)))"

text \<open>
  \<open>Section_Minimizer::close\<close>. In write mode: register the masked minimizer with the
  position of the file (where the tag is about to be written), then write the header,
  the columns, and the column offsets into the header. In read mode: skip the blocks
  not read yet.
\<close>

definition Section_Minimizer_close ::
  "codec \<Rightarrow> Section_Minimizer \<Rightarrow> Kero_file \<Rightarrow> error + (Section_Minimizer \<times> Kero_file)" where
  "Section_Minimizer_close C s f =
     (case (if is_writer f then
              (case (if indexed f then
                       (case mask_mini_arr (sm_minimizer s) (sm_m s) of
                          None \<Rightarrow> Inl Undefined_behaviour
                        | Some key \<Rightarrow> Inr (Kero_file_register_minimizer_section f key))
                     else Inr f) of
                 Inl e \<Rightarrow> Inl e
               | Inr f1 \<Rightarrow>
              (case Section_Minimizer_write_section_header s f1 of
                 Inl e \<Rightarrow> Inl e
               | Inr (s1, f2) \<Rightarrow>
              (case Section_Minimizer_write_columns C s1 f2 of
                 Inl e \<Rightarrow> Inl e
               | Inr (s2, f3) \<Rightarrow>
              (case Section_Minimizer_backfill_column_offsets s2 f3 of
                 Inl e \<Rightarrow> Inl e
               | Inr f4 \<Rightarrow> Inr (s2, f4)))))
            else Inr (s, f)) of
        Inl e \<Rightarrow> Inl e
      | Inr (s', f') \<Rightarrow>
          (if is_reader f' then
             (case jump_remaining C s' f' of None \<Rightarrow> Inl Diverges | Some r \<Rightarrow> r)
           else Inr (s', f')))"

subsection \<open>Concrete inputs\<close>

text \<open>
  A file whose sections are two variable sections, \<open>{k = 5}\<close> and then \<open>{m = 3}\<close>,
  before the closing signature, and a reader standing at the first of them.
\<close>

definition two_sections_file :: "byte list" where
  "two_sections_file =
     [of_char CHR ''v''] @ store_big_endian 8 1 @ c_str ''k'' @ store_big_endian 8 5
     @ [of_char CHR ''v''] @ store_big_endian 8 1 @ c_str ''m'' @ store_big_endian 8 3
     @ map of_char ''KERO''"

definition two_sections_reader :: Kero_file where
  "two_sections_reader =
     (Kero_file_reader two_sections_file 0)\<lparr>header_over := True, footer_discovery_ended := True\<rparr>"

definition vars_after :: "nat \<Rightarrow> Kero_file \<Rightarrow> error + (string \<rightharpoonup> u64)" where
  "vars_after n f = map_sum id (\<lambda>r. global_vars (snd r)) (read_GV_sections n f)"

text \<open>
  The file that a writer leaves when it is opened and closed at once, with the index
  that is on by default.
\<close>

definition written_empty_file :: "'m pthash \<Rightarrow> error + byte list" where
  "written_empty_file P =
     (case Kero_file_open_w (Kero_file_new []) of
        Inl e \<Rightarrow> Inl e
      | Inr f \<Rightarrow> map_sum id disk (Kero_file_close P f True))"

definition empty_file_bytes :: "byte list" where
  "empty_file_bytes =
     map of_char ''KERO'' @ [0, 1, 0x1E, 0, 0] @ [0, 0, 0, 0]
     @ [of_char CHR ''i''] @ [0, 0, 0, 0, 0, 0, 0, 0] @ [0, 0, 0, 0, 0, 0, 0, 0]
     @ [of_char CHR ''v''] @ [0, 0, 0, 0, 0, 0, 0, 2]
     @ c_str ''first_index'' @ [0, 0, 0, 0, 0, 0, 0, 13]
     @ c_str ''footer_size'' @ [0, 0, 0, 0, 0, 0, 0, 49]
     @ map of_char ''KERO''"

text \<open>
  A raw section for \<open>k = 1\<close>, \<open>max = 256\<close> and no data, in a writer that has written
  nothing yet, and the block of 256 nucleotides (256 k-mers) written to it.
\<close>

definition raw_256 :: Section_Raw where
  "raw_256 =
     \<lparr>sr_beginning = 0, sr_nb_blocks = 0, sr_remaining_blocks = 0, sr_k = 1, sr_max = 256,
      sr_data_size = 0, sr_nb_kmers_bytes = nb_kmers_bytes_of 256\<rparr>"

definition raw_256_block :: "error + byte list" where
  "raw_256_block =
     map_sum id (\<lambda>r. file_content (snd r))
       (Section_Raw_write_compacted_sequence raw_256
          ((Kero_file_new [])\<lparr>is_writer := True\<rparr>) (replicate 64 0x1B) 256 [])"

text \<open>A minimizer section whose single block has been read, and a codec that does nothing.\<close>

definition null_codec :: codec where
  "null_codec = \<lparr>p4nenc64 = (\<lambda>xs. []), p4nenc8 = (\<lambda>xs. xs),
                 p4ndec64 = (\<lambda>bs n. replicate n 0), p4ndec8 = (\<lambda>bs n. take n bs)\<rparr>"

definition read_out_section :: Section_Minimizer where
  "read_out_section =
     \<lparr>sm_beginning = 0, sm_nb_blocks = 1, sm_remaining_blocks = 0, sm_k = 5, sm_m = 3,
      sm_max = 2, sm_data_size = 0, sm_minimizer = [0x0E], sm_nb_kmers_bytes = 1,
      sm_nb_bytes_mini = 1, sm_mini_pos_bytes = 1, n_col_offset = 0, m_idx_col_offset = 0,
      seq_col_offset = 0, data_col_offset = 0, start_pos = 0, n_value_buffer = [1],
      m_idx_buffer = [1], seq_buffer = [], data_buffer = [], cur_skmer_idx = 1, last_n_pos = 1,
      last_m_idx_pos = 1, last_seq_pos = 1, last_data_pos = 0\<rparr>"

section \<open>The minimizer mask\<close>

lemma two_m_lt_64:
  fixes m :: u64
  assumes "m < 32"
  shows "2 * m < 64" and "unat (2 * m) = 2 * unat m"
proof -
  from assms have m: "unat m < 32" by (simp add: word_less_nat_alt)
  then have u: "unat (2 * m) = 2 * unat m"
    by (simp add: unat_word_ariths)
  show "unat (2 * m) = 2 * unat m" by (rule u)
  from m u show "2 * m < 64" by (simp add: word_less_nat_alt)
qed

text \<open>
  Claim C8. \<open>get_mini_mask 32\<close> is \<open>0xFFFFFFFFFFFFFFFF\<close> and is computed without a
  shift by 64 bits (the result is \<open>Some\<close>, and so it is for every \<open>m\<close>), hence
  \<open>mask_mini x 32 = x\<close> for every 64-bit \<open>x\<close>; and for every \<open>m < 32\<close> the mask is
  \<open>2 ^ (2 * m) - 1\<close>.
\<close>

theorem get_mini_mask_boundary:
  "get_mini_mask 32 = Some 0xFFFFFFFFFFFFFFFF
   \<and> (\<forall>x. mask_mini x 32 = Some x)
   \<and> (\<forall>m. get_mini_mask m \<noteq> None)
   \<and> (\<forall>m. m < 32 \<longrightarrow> get_mini_mask m = Some (2 ^ (2 * unat m) - 1))"
proof (intro conjI allI impI)
  show "get_mini_mask 32 = Some 0xFFFFFFFFFFFFFFFF"
    by (simp add: get_mini_mask_def)
next
  fix x :: u64
  have "(0xFFFFFFFFFFFFFFFF :: u64) = - 1" by simp
  then have "x AND 0xFFFFFFFFFFFFFFFF = x" by (simp only: and.right_neutral)
  then show "mask_mini x 32 = Some x"
    by (simp add: mask_mini_def get_mini_mask_def)
next
  fix m :: u64
  show "get_mini_mask m \<noteq> None"
  proof (cases "32 \<le> m")
    case True
    then show ?thesis by (simp add: get_mini_mask_def)
  next
    case False
    then have "m < 32" by simp
    then have "\<not> 64 \<le> 2 * m" using two_m_lt_64(1) [of m] by simp
    with False show ?thesis by (simp add: get_mini_mask_def shl_u64_def)
  qed
next
  fix m :: u64
  assume m: "m < 32"
  then have a: "\<not> 64 \<le> 2 * m" using two_m_lt_64(1) [of m] by simp
  from m have b: "\<not> 32 \<le> m" by simp
  show "get_mini_mask m = Some (2 ^ (2 * unat m) - 1)"
    using a b two_m_lt_64(2) [OF m]
    by (simp add: get_mini_mask_def shl_u64_def push_bit_eq_mult)
qed

theorem get_mini_mask_boundary_witness:
  "(3 :: u64) < 32 \<and> get_mini_mask 3 = Some 63
   \<and> mask_mini 0xABCDEF0123456789 32 = Some 0xABCDEF0123456789"
  using get_mini_mask_boundary by simp

section \<open>Reading and writing through the container\<close>

subsection \<open>Copying into a buffer\<close>

lemma length_memcpy:
  "pos + length src \<le> length dst \<Longrightarrow> length (memcpy dst pos src) = length dst"
  by (simp add: memcpy_def)

lemma take_memcpy:
  assumes "n \<le> length dst" "pos + length src \<le> n"
  shows "take n (memcpy dst pos src) = memcpy (take n dst) pos src"
  using assms by (simp add: memcpy_def min_absorb2 take_drop)

lemma memcpy_append_left:
  "pos + length src \<le> length a \<Longrightarrow> memcpy (a @ b) pos src = memcpy a pos src @ b"
  by (simp add: memcpy_def)

lemma memcpy_append_right:
  "length a \<le> pos \<Longrightarrow> memcpy (a @ b) pos src = a @ memcpy b (pos - length a) src"
  by (simp add: memcpy_def)

lemma memcpy_append_across:
  assumes "pos \<le> length a" "length a \<le> pos + length src"
    "pos + length src \<le> length a + length b"
  shows "memcpy (a @ b) pos src
    = memcpy a pos (take (length a - pos) src) @ memcpy b 0 (drop (length a - pos) src)"
proof -
  have "length a - pos \<le> length src" using assms by linarith
  then have "min (length src) (length a - pos) = length a - pos" by simp
  moreover have "pos + length src - length a = length src - (length a - pos)"
    using assms by linarith
  ultimately show ?thesis using assms
    by (simp add: memcpy_def)
qed

lemma take_drop_take:
  "a + sz \<le> n \<Longrightarrow> take sz (drop a (take n xs)) = take sz (drop a xs)"
  by (simp add: drop_take min_absorb1)

subsection \<open>\<open>Kero_file::read\<close>, branch by branch\<close>

lemma as_u64_id: "x < 2 ^ 64 \<Longrightarrow> as_u64 x = x"
  by (simp add: as_u64_def)

lemma as_u64_le: "as_u64 x \<le> x"
  by (simp add: as_u64_def)

lemma read_in_file:
  assumes "reader_inv f" "current_position f < file_size f"
    "current_position f + sz \<le> file_size f" "current_position f + sz < 2 ^ 64"
  shows "Kero_file_read f sz = Inr (take sz (drop (current_position f) (disk f)),
           (if fs_is_open f then f else fs_open_in f)
             \<lparr>fs_pos := current_position f + sz, current_position := current_position f + sz\<rparr>)"
  using assms
  apply (subst Kero_file_read.simps)
  apply (auto simp: reader_inv_def fs_read_def fs_open_in_def as_u64_id split: if_splits)
  done

lemma read_in_buffer:
  assumes "reader_inv f" "file_size f \<le> current_position f"
    "current_position f + sz \<le> file_size f + next_free f" "current_position f + sz < 2 ^ 64"
  shows "Kero_file_read f sz =
           Inr (take sz (drop (current_position f - file_size f) (file_buffer f)),
                f\<lparr>current_position := current_position f + sz\<rparr>)"
proof -
  have a: "current_position f - file_size f + sz \<le> next_free f" using assms(2,3) by linarith
  then have b: "as_u64 (current_position f - file_size f + sz) \<le> next_free f"
    using as_u64_le [of "current_position f - file_size f + sz"] by linarith
  have c: "current_position f - file_size f + sz \<le> length (file_buffer f)"
    using a assms(1) by (simp add: reader_inv_def)
  show ?thesis
    apply (subst Kero_file_read.simps)
    using assms b c
    apply (simp add: Let_def reader_inv_def as_u64_id)
    done
qed

lemma read_out_buffer:
  assumes "is_reader f" "file_size f \<le> current_position f"
    "current_position f + sz > file_size f + next_free f" "current_position f + sz < 2 ^ 64"
  shows "Kero_file_read f sz = Inl Out_of_range"
proof -
  have "current_position f - file_size f + sz < 2 ^ 64" using assms(2,4) by linarith
  then have "as_u64 (current_position f - file_size f + sz) = current_position f - file_size f + sz"
    by (rule as_u64_id)
  moreover have "next_free f < current_position f - file_size f + sz" using assms(2,3) by linarith
  ultimately show ?thesis
    apply (subst Kero_file_read.simps)
    using assms(1,2)
    apply (simp add: Let_def)
    done
qed

lemma read_across:
  assumes inv: "reader_inv f" and lt: "current_position f < file_size f"
    and over: "file_size f < current_position f + sz"
    and nw: "current_position f + sz < 2 ^ 64"
  shows "Kero_file_read f sz =
    (if file_size f + next_free f < current_position f + sz then Inl Out_of_range
     else Inr (take sz (drop (current_position f) (file_content f)),
           (if fs_is_open f then f else fs_open_in f)
             \<lparr>fs_pos := file_size f, current_position := current_position f + sz\<rparr>))"
proof -
  let ?n = "file_size f - current_position f"
  let ?f1 = "(if fs_is_open f then f else fs_open_in f)
               \<lparr>fs_pos := current_position f + ?n, current_position := current_position f + ?n\<rparr>"
  have first: "Kero_file_read f ?n = Inr (take ?n (drop (current_position f) (disk f)), ?f1)"
    using inv lt over nw by (intro read_in_file) auto
  have f1: "is_reader ?f1" "file_size ?f1 = file_size f" "current_position ?f1 = file_size f"
    "next_free ?f1 = next_free f" "file_buffer ?f1 = file_buffer f"
    using inv lt by (auto simp: reader_inv_def fs_open_in_def)
  have inv1: "reader_inv ?f1"
    using inv lt by (auto simp: reader_inv_def fs_open_in_def)
  have len: "file_size f = length (disk f)" using inv by (simp add: reader_inv_def)
  have test: "file_size f < as_u64 (current_position f + sz)"
    using over nw by (simp add: as_u64_id)
  show ?thesis
  proof (cases "file_size f + next_free f < current_position f + sz")
    case True
    have "Kero_file_read ?f1 (sz - ?n) = Inl Out_of_range"
      by (rule read_out_buffer) (use f1 True lt over nw in auto)
    with first True lt test show ?thesis
      by (subst Kero_file_read.simps) (use inv in \<open>auto simp: reader_inv_def Let_def\<close>)
  next
    case False
    have second: "Kero_file_read ?f1 (sz - ?n) =
        Inr (take (sz - ?n) (drop (current_position ?f1 - file_size ?f1) (file_buffer ?f1)),
             ?f1\<lparr>current_position := current_position ?f1 + (sz - ?n)\<rparr>)"
      by (rule read_in_buffer [OF inv1]) (use f1 False lt over nw in auto)
    have bytes: "take ?n (drop (current_position f) (disk f)) @ take (sz - ?n) (file_buffer f)
        = take sz (drop (current_position f) (file_content f))"
    proof -
      have a: "sz - ?n \<le> next_free f" using False lt over by linarith
      have b: "min sz ?n = ?n" using over lt by linarith
      have c: "current_position f \<le> length (disk f)" using lt len by simp
      show ?thesis using a b c len lt
        by (simp add: file_content_def min_absorb2 min_absorb1)
    qed
    have st: "?f1\<lparr>current_position := current_position ?f1 + (sz - ?n)\<rparr>
        = (if fs_is_open f then f else fs_open_in f)
            \<lparr>fs_pos := file_size f, current_position := current_position f + sz\<rparr>"
      using lt over by (auto simp: fs_open_in_def)
    show ?thesis
      apply (subst Kero_file_read.simps)
      using first second False lt over inv bytes st f1 test
      apply (simp add: reader_inv_def Let_def del: take_drop)
      done
  qed
qed

text \<open>
  As long as \<open>current_position + size\<close> stays below \<open>2 ^ 64\<close>, a reader gets the
  out-of-range error exactly when the sum exceeds \<open>file_size + next_free\<close>, and otherwise
  the \<open>size\<close> bytes of the content that start at \<open>current_position\<close>, on disk, in the
  buffer or across both, with \<open>current_position\<close> advanced by \<open>size\<close>.
\<close>

lemma Kero_file_read_no_wrap:
  assumes inv: "reader_inv f" and nw: "current_position f + sz < 2 ^ 64"
  shows "(Kero_file_read f sz = Inl Out_of_range
            \<longleftrightarrow> file_size f + next_free f < current_position f + sz)
    \<and> (current_position f + sz \<le> file_size f + next_free f \<longrightarrow>
        (\<exists>f'. Kero_file_read f sz = Inr (take sz (drop (current_position f) (file_content f)), f')
           \<and> current_position f' = current_position f + sz
           \<and> file_content f' = file_content f \<and> file_size f' = file_size f
           \<and> next_free f' = next_free f \<and> reader_inv f' \<and> same_meta f f'))"
proof -
  have len: "file_size f = length (disk f)" and rd: "is_reader f"
    using inv by (simp_all add: reader_inv_def)
  consider (buf) "file_size f \<le> current_position f"
    | (ondisk) "current_position f < file_size f" "current_position f + sz \<le> file_size f"
    | (across) "current_position f < file_size f" "file_size f < current_position f + sz"
    by linarith
  then show ?thesis
  proof cases
    case buf
    show ?thesis
    proof (cases "file_size f + next_free f < current_position f + sz")
      case True
      then show ?thesis using read_out_buffer [OF rd buf _ nw] by simp
    next
      case False
      then have le: "current_position f + sz \<le> file_size f + next_free f" by simp
      have "take sz (drop (current_position f - file_size f) (file_buffer f))
          = take sz (drop (current_position f) (file_content f))"
        using buf le len
          take_drop_take [of "current_position f - file_size f" sz "next_free f" "file_buffer f"]
        by (simp add: file_content_def)
      then show ?thesis using read_in_buffer [OF inv buf le nw] False inv buf
        by (auto simp: reader_inv_def file_content_def same_meta_def)
    qed
  next
    case ondisk
    have "take sz (drop (current_position f) (disk f))
        = take sz (drop (current_position f) (file_content f))"
      using ondisk len by (simp add: file_content_def)
    then show ?thesis using read_in_file [OF inv ondisk nw] ondisk inv
      by (auto simp: reader_inv_def file_content_def fs_open_in_def same_meta_def)
  next
    case across
    show ?thesis using read_across [OF inv across nw] across inv
      by (auto simp: reader_inv_def file_content_def fs_open_in_def same_meta_def)
  qed
qed

text \<open>
  Claim C7. In read mode \<open>read(bytes, size)\<close> should fail with the out-of-range error
  exactly when \<open>current_position + size\<close> exceeds \<open>file_size + next_free\<close>. The tests
  of \<open>read\<close> form \<open>current_position + size\<close> and \<open>buffer_position + size\<close> in
  \<open>unsigned long\<close>, where they wrap. A reader at byte 1 of a file of 5 bytes that asks
  for \<open>2 ^ 64 - 1\<close> bytes gets the sum 0, takes the branch that reads from the stream,
  and ends with \<open>exit(1)\<close> on the failed read, not with the out-of-range error. A reader
  at byte 4 of a file of 3 bytes on disk and 2 in the buffer that asks for
  \<open>2 ^ 64 - 1\<close> bytes gets the sum 0 as well, passes the test against \<open>next_free\<close> and
  copies from the buffer more bytes than it holds.
\<close>

theorem Kero_file_read_sum_wraps:
  "file_size (Kero_file_reader [1, 2, 3, 4, 5] 1) + next_free (Kero_file_reader [1, 2, 3, 4, 5] 1)
       < current_position (Kero_file_reader [1, 2, 3, 4, 5] 1) + (2 ^ 64 - 1)
   \<and> Kero_file_read (Kero_file_reader [1, 2, 3, 4, 5] 1) (2 ^ 64 - 1) = Inl Exit_failure
   \<and> file_size (example_reader\<lparr>current_position := 4\<rparr>)
         + next_free (example_reader\<lparr>current_position := 4\<rparr>)
       < current_position (example_reader\<lparr>current_position := 4\<rparr>) + (2 ^ 64 - 1)
   \<and> Kero_file_read (example_reader\<lparr>current_position := 4\<rparr>) (2 ^ 64 - 1)
       = Inl Undefined_behaviour"
  by (simp add: Kero_file_read.simps Kero_file_reader_def Kero_file_new_def
      example_reader_def as_u64_def fs_read_def Let_def)

text \<open>Both readers are in a state that \<open>open\<close> and \<open>read\<close> produce.\<close>

lemma wrapping_readers_inv:
  "reader_inv (Kero_file_reader [1, 2, 3, 4, 5] 1)"
  "reader_inv (example_reader\<lparr>current_position := 4\<rparr>)"
  by (simp_all add: Kero_file_reader_def Kero_file_new_def reader_inv_def example_reader_def)

subsection \<open>\<open>Kero_file::write_at\<close>, branch by branch\<close>

lemma write_at_disk:
  assumes inv: "writer_inv f" and a: "position < file_size f"
    and b: "position + length bytes \<le> file_size f"
  shows "\<exists>f'. Kero_file_write_at f bytes position = Inr f'
     \<and> disk f' = memcpy (disk f) position bytes \<and> file_buffer f' = file_buffer f
     \<and> file_size f' = file_size f \<and> next_free f' = next_free f
     \<and> current_position f' = current_position f \<and> writer_inv f' \<and> same_meta f f'"
proof -
  from inv a have ws: "writing_started f" and len: "file_size f = length (disk f)"
    and op: "tmp_closed f \<or> (fs_is_open f \<and> fs_pos f = length (disk f))"
    by (auto simp: writer_inv_def split: if_splits)
  show ?thesis
    apply (subst Kero_file_write_at.simps)
    using inv a b ws len op
    apply (auto simp: writer_inv_def same_meta_def fs_write_def fs_seek_def
        Kero_file_reopen_def memcpy_def)
    done
qed

lemma write_at_buffer:
  assumes inv: "writer_inv f" and a: "file_size f \<le> position"
    and b: "position + length bytes \<le> file_size f + next_free f"
  shows "\<exists>f'. Kero_file_write_at f bytes position = Inr f'
     \<and> disk f' = disk f
     \<and> file_buffer f' = memcpy (file_buffer f) (position - file_size f) bytes
     \<and> file_size f' = file_size f \<and> next_free f' = next_free f
     \<and> current_position f' = current_position f \<and> writer_inv f' \<and> same_meta f f'"
proof -
  have "position - file_size f + length bytes \<le> next_free f" using a b by linarith
  then show ?thesis
    apply (subst Kero_file_write_at.simps)
    using inv a b
    apply (auto simp: writer_inv_def same_meta_def Let_def memcpy_def)
    done
qed

lemma write_at_content:
  assumes inv: "writer_inv f"
    and le: "position + length bytes \<le> file_size f + next_free f"
  shows "\<exists>f'. Kero_file_write_at f bytes position = Inr f'
     \<and> file_content f' = memcpy (file_content f) position bytes
     \<and> file_size f' = file_size f \<and> next_free f' = next_free f
     \<and> current_position f' = current_position f \<and> writer_inv f' \<and> same_meta f f'"
proof -
  have nf: "next_free f \<le> length (file_buffer f)" using inv by (simp add: writer_inv_def)
  consider (buf) "file_size f \<le> position"
    | (ondisk) "position < file_size f" "position + length bytes \<le> file_size f"
    | (across) "position < file_size f" "file_size f < position + length bytes"
    by linarith
  then show ?thesis
  proof cases
    case buf
    from write_at_buffer [OF inv buf le] obtain f' where
      f': "Kero_file_write_at f bytes position = Inr f'" "disk f' = disk f"
      "file_buffer f' = memcpy (file_buffer f) (position - file_size f) bytes"
      "file_size f' = file_size f" "next_free f' = next_free f"
      "current_position f' = current_position f" "writer_inv f'" "same_meta f f'" by blast
    have p: "position - file_size f + length bytes \<le> next_free f" using buf le by linarith
    have l: "length (take (file_size f) (disk f)) = file_size f"
      using inv by (auto simp: writer_inv_def split: if_splits)
    have "file_content f' = take (file_size f) (disk f)
        @ memcpy (take (next_free f) (file_buffer f)) (position - file_size f) bytes"
      using f' take_memcpy [OF nf p] by (simp add: file_content_def)
    also have "\<dots> = memcpy (file_content f) position bytes"
      using memcpy_append_right [of "take (file_size f) (disk f)" position] buf l
      by (simp add: file_content_def)
    finally show ?thesis using f' by auto
  next
    case ondisk
    from write_at_disk [OF inv ondisk] obtain f' where
      f': "Kero_file_write_at f bytes position = Inr f'"
      "disk f' = memcpy (disk f) position bytes" "file_buffer f' = file_buffer f"
      "file_size f' = file_size f" "next_free f' = next_free f"
      "current_position f' = current_position f" "writer_inv f'" "same_meta f f'" by blast
    have l: "file_size f = length (disk f)"
      using inv ondisk by (auto simp: writer_inv_def split: if_splits)
    have "file_content f' = memcpy (disk f) position bytes @ take (next_free f) (file_buffer f)"
      using f' l ondisk by (simp add: file_content_def length_memcpy)
    also have "\<dots> = memcpy (file_content f) position bytes"
      using memcpy_append_left [of position bytes "disk f"] ondisk l
      by (simp add: file_content_def)
    finally show ?thesis using f' by auto
  next
    case across
    let ?n = "file_size f - position"
    have l: "file_size f = length (disk f)"
      using inv across by (auto simp: writer_inv_def split: if_splits)
    have n: "?n \<le> length bytes" using across by linarith
    have "position + length (take ?n bytes) \<le> file_size f" using across n by simp
    from write_at_disk [OF inv across(1) this] obtain f1 where
      f1: "Kero_file_write_at f (take ?n bytes) position = Inr f1"
      "disk f1 = memcpy (disk f) position (take ?n bytes)" "file_buffer f1 = file_buffer f"
      "file_size f1 = file_size f" "next_free f1 = next_free f"
      "current_position f1 = current_position f" "writer_inv f1" "same_meta f f1" by blast
    have "position + ?n + length (drop ?n bytes) \<le> file_size f1 + next_free f1"
      using f1 le across by simp
    moreover have "file_size f1 \<le> position + ?n" using f1 across by simp
    ultimately obtain f2 where
      f2: "Kero_file_write_at f1 (drop ?n bytes) (position + ?n) = Inr f2" "disk f2 = disk f1"
      "file_buffer f2 = memcpy (file_buffer f1) (position + ?n - file_size f1) (drop ?n bytes)"
      "file_size f2 = file_size f1" "next_free f2 = next_free f1"
      "current_position f2 = current_position f1" "writer_inv f2" "same_meta f1 f2"
      using write_at_buffer [OF f1(7), of "position + ?n" "drop ?n bytes"] by blast
    have res: "Kero_file_write_at f bytes position = Inr f2"
      apply (subst Kero_file_write_at.simps)
      using inv across le f1 f2 by (simp add: writer_inv_def Let_def)
    have z: "position + ?n - file_size f1 = 0" using f1 across by simp
    have p: "0 + length (drop ?n bytes) \<le> next_free f" using le across by simp
    have dl: "length (memcpy (disk f) position (take ?n bytes)) = length (disk f)"
      using across l n by (simp add: length_memcpy)
    have "file_content f2 = memcpy (disk f) position (take ?n bytes)
        @ memcpy (take (next_free f) (file_buffer f)) 0 (drop ?n bytes)"
      using f1 f2 z l dl take_memcpy [OF nf p] by (simp add: file_content_def)
    also have "\<dots> = memcpy (file_content f) position bytes"
      using memcpy_append_across [of position "disk f" bytes "take (next_free f) (file_buffer f)"]
        across l le nf by (simp add: file_content_def min_absorb2)
    finally have c: "file_content f2 = memcpy (file_content f) position bytes" .
    have "same_meta f f2" using f1(8) f2(8) by (simp add: same_meta_def)
    then show ?thesis using res c f1 f2 by auto
  qed
qed

text \<open>
  Claim C9. A \<open>write_at\<close> in write mode whose range \<open>[position, position + size)\<close>
  lies inside the \<open>file_size + next_free\<close> bytes written so far replaces exactly the
  bytes of that range by the given ones, on disk, in the buffer or across both: the
  content before \<open>position\<close> and from \<open>position + size\<close> on is the old one, and
  \<open>file_size\<close>, \<open>next_free\<close> and \<open>current_position\<close> are unchanged.
\<close>

theorem Kero_file_write_at_frame:
  assumes inv: "writer_inv f"
    and le: "position + length bytes \<le> file_size f + next_free f"
  shows "\<exists>f'. Kero_file_write_at f bytes position = Inr f'
     \<and> file_content f' = take position (file_content f) @ bytes
                          @ drop (position + length bytes) (file_content f)
     \<and> length (file_content f') = length (file_content f)
     \<and> file_size f' = file_size f \<and> next_free f' = next_free f
     \<and> current_position f' = current_position f"
proof -
  from write_at_content [OF inv le] obtain f' where
    f': "Kero_file_write_at f bytes position = Inr f'"
    "file_content f' = memcpy (file_content f) position bytes"
    "file_size f' = file_size f" "next_free f' = next_free f"
    "current_position f' = current_position f" by blast
  have "length (file_content f) = file_size f + next_free f"
    using inv by (auto simp: writer_inv_def file_content_def split: if_splits)
  then have "length (memcpy (file_content f) position bytes) = length (file_content f)"
    using le by (simp add: length_memcpy)
  then show ?thesis using f' by (auto simp: memcpy_def)
qed

theorem Kero_file_write_at_frame_witness:
  "writer_inv example_writer
   \<and> 2 + length [9, 8 :: byte] \<le> file_size example_writer + next_free example_writer
   \<and> (\<exists>f'. Kero_file_write_at example_writer [9, 8] 2 = Inr f'
          \<and> file_content f' = [1, 2, 9, 8, 5] \<and> current_position f' = 5)"
proof -
  have inv: "writer_inv example_writer"
    by (simp add: writer_inv_def example_writer_def)
  have le: "2 + length [9, 8 :: byte] \<le> file_size example_writer + next_free example_writer"
    by (simp add: example_writer_def)
  have v: "file_content example_writer = [1, 2, 3, 4, 5]" "current_position example_writer = 5"
    by (simp_all add: example_writer_def file_content_def)
  have "\<exists>f'. Kero_file_write_at example_writer [9, 8] 2 = Inr f'
          \<and> file_content f' = [1, 2, 9, 8, 5] \<and> current_position f' = 5"
    using Kero_file_write_at_frame [OF inv le] by (auto simp: v)
  with inv le show ?thesis by blast
qed

subsection \<open>\<open>Kero_file::write\<close> appends\<close>

lemma resize_buffer_Some:
  assumes "writer_inv f"
  shows "\<exists>f1. resize_buffer f sz = Some f1 \<and> writer_inv f1 \<and> same_meta f f1
     \<and> disk f1 = disk f \<and> fs_is_open f1 = fs_is_open f \<and> fs_pos f1 = fs_pos f
     \<and> current_position f1 = current_position f \<and> writing_started f1 = writing_started f
     \<and> file_size f1 = file_size f \<and> next_free f1 = next_free f \<and> tmp_closed f1 = tmp_closed f
     \<and> take (next_free f) (file_buffer f1) = take (next_free f) (file_buffer f)"
  using assms
proof (induction "max_buffer_size f - buffer_size f" arbitrary: f rule: less_induct)
  case less
  show ?case
  proof (cases "buffer_size f - next_free f < sz \<and> buffer_size f < max_buffer_size f")
    case False
    then show ?thesis using less.prems
      by (subst resize_buffer.simps) (auto simp: same_meta_def)
  next
    case True
    let ?g = "f\<lparr>buffer_size := 2 * buffer_size f,
                file_buffer := take (next_free f) (file_buffer f)
                               @ replicate (2 * buffer_size f - next_free f) 0\<rparr>"
    have pos: "0 < buffer_size f" and nf: "next_free f \<le> buffer_size f"
      "buffer_size f = length (file_buffer f)"
      using less.prems by (auto simp: writer_inv_def)
    have inv: "writer_inv ?g" using less.prems by (auto simp: writer_inv_def)
    have dec: "max_buffer_size ?g - buffer_size ?g < max_buffer_size f - buffer_size f"
      using True pos by simp linarith
    from less.hyps [OF dec inv] obtain f1 where
      f1: "resize_buffer ?g sz = Some f1" "writer_inv f1" "same_meta ?g f1"
      "disk f1 = disk ?g" "fs_is_open f1 = fs_is_open ?g" "fs_pos f1 = fs_pos ?g"
      "current_position f1 = current_position ?g" "writing_started f1 = writing_started ?g"
      "file_size f1 = file_size ?g" "next_free f1 = next_free ?g" "tmp_closed f1 = tmp_closed ?g"
      "take (next_free ?g) (file_buffer f1) = take (next_free ?g) (file_buffer ?g)" by blast
    have "resize_buffer f sz = Some f1"
      using True f1(1) by (subst resize_buffer.simps) simp
    then show ?thesis using f1 nf by (auto simp: same_meta_def)
  qed
qed

lemma fs_write_at_end:
  assumes "fs_is_open g" "fs_pos g = length (disk g)"
  shows "fs_write g bs = Some (g\<lparr>disk := disk g @ bs, fs_pos := fs_pos g + length bs\<rparr>)"
  using assms by (simp add: fs_write_def memcpy_def)

lemma Kero_file_write_spill:
  assumes "is_writer f" "resize_buffer f (length bytes) = Some f1"
    "\<not> length bytes \<le> buffer_size f1 - next_free f1"
    "f2 = (if \<not> writing_started f1 then (fs_open_out f1)\<lparr>writing_started := True\<rparr>
           else if tmp_closed f1 then Kero_file_reopen f1 else f1)"
    "fs_write f2 (take (next_free f2) (file_buffer f2)) = Some f3"
    "fs_write f3 bytes = Some f4"
  shows "Kero_file_write f bytes =
           Inr (f4\<lparr>file_size := file_size f4 + next_free f4 + length bytes,
                   next_free := 0,
                   current_position := current_position f4 + length bytes\<rparr>)"
proof -
  have "Kero_file_write f bytes =
      (case fs_write f2 (take (next_free f2) (file_buffer f2)) of
         None \<Rightarrow> Inl Exit_failure
       | Some f3 \<Rightarrow>
           (case fs_write f3 bytes of
              None \<Rightarrow> Inl Exit_failure
            | Some f4 \<Rightarrow>
                Inr (f4\<lparr>file_size := file_size f4 + next_free f4 + length bytes,
                        next_free := 0,
                        current_position := current_position f4 + length bytes\<rparr>)))"
    unfolding assms(4) using assms(1,2,3) by (simp add: Kero_file_write_def Let_def)
  then show ?thesis by (simp add: assms(5,6))
qed

lemma Kero_file_write_append:
  assumes inv: "writer_inv f"
  shows "\<exists>f'. Kero_file_write f bytes = Inr f' \<and> writer_inv f' \<and> same_meta f f'
     \<and> file_content f' = file_content f @ bytes
     \<and> current_position f' = current_position f + length bytes
     \<and> file_size f' + next_free f' = file_size f + next_free f + length bytes"
proof -
  from resize_buffer_Some [OF inv, of "length bytes"] obtain f1 where
    f1: "resize_buffer f (length bytes) = Some f1" "writer_inv f1" "same_meta f f1"
    "disk f1 = disk f" "fs_is_open f1 = fs_is_open f" "fs_pos f1 = fs_pos f"
    "current_position f1 = current_position f" "writing_started f1 = writing_started f"
    "file_size f1 = file_size f" "next_free f1 = next_free f" "tmp_closed f1 = tmp_closed f"
    "take (next_free f) (file_buffer f1) = take (next_free f) (file_buffer f)" by blast
  have w: "is_writer f" using inv by (simp add: writer_inv_def)
  have c1: "file_content f1 = file_content f" using f1 by (simp add: file_content_def)
  have nf: "next_free f1 \<le> length (file_buffer f1)" "buffer_size f1 = length (file_buffer f1)"
    using f1(2) by (auto simp: writer_inv_def)
  show ?thesis
  proof (cases "length bytes \<le> buffer_size f1 - next_free f1")
    case True
    let ?f' = "f1\<lparr>file_buffer := memcpy (file_buffer f1) (next_free f1) bytes,
                     next_free := next_free f1 + length bytes,
                     current_position := current_position f1 + length bytes\<rparr>"
    have r: "Kero_file_write f bytes = Inr ?f'"
      using w f1(1) True by (simp add: Kero_file_write_def)
    have le: "next_free f1 + length bytes \<le> length (file_buffer f1)" using True nf by linarith
    have "take (next_free f1 + length bytes) (memcpy (file_buffer f1) (next_free f1) bytes)
       = take (next_free f1) (file_buffer f1) @ bytes"
      using le by (simp add: memcpy_def)
    then have c: "file_content ?f' = file_content f1 @ bytes" by (simp add: file_content_def)
    have i: "writer_inv ?f'" using f1(2) le by (auto simp: writer_inv_def length_memcpy)
    show ?thesis using r c c1 i f1 by (auto simp: same_meta_def)
  next
    case False
    define f2 where "f2 = (if \<not> writing_started f1 then (fs_open_out f1)\<lparr>writing_started := True\<rparr>
                        else if tmp_closed f1 then Kero_file_reopen f1 else f1)"
    have o: "fs_is_open f2" "fs_pos f2 = length (disk f2)"
      "take (file_size f1) (disk f1) = disk f2"
      "file_buffer f2 = file_buffer f1" "next_free f2 = next_free f1" "file_size f2 = file_size f1"
      "length (disk f2) = file_size f1" "current_position f2 = current_position f1"
      "writing_started f2" "is_writer f2" "buffer_size f2 = buffer_size f1"
      using f1(2)
      by (auto simp: f2_def writer_inv_def fs_open_out_def Kero_file_reopen_def split: if_splits)
    have m2: "same_meta f1 f2"
      by (auto simp: f2_def same_meta_def fs_open_out_def Kero_file_reopen_def)
    define b where "b = take (next_free f2) (file_buffer f2)"
    define f3 where "f3 = f2\<lparr>disk := disk f2 @ b, fs_pos := fs_pos f2 + length b\<rparr>"
    define f4 where "f4 = f3\<lparr>disk := disk f3 @ bytes, fs_pos := fs_pos f3 + length bytes\<rparr>"
    have w1: "fs_write f2 (take (next_free f2) (file_buffer f2)) = Some f3"
      unfolding f3_def b_def using o(1,2) by (rule fs_write_at_end)
    have o3: "fs_is_open f3" "fs_pos f3 = length (disk f3)" using o(1,2) by (simp_all add: f3_def)
    have w2: "fs_write f3 bytes = Some f4"
      unfolding f4_def using o3 by (rule fs_write_at_end)
    define f' where "f' = f4\<lparr>file_size := file_size f4 + next_free f4 + length bytes,
                                  next_free := 0,
                                  current_position := current_position f4 + length bytes\<rparr>"
    have r: "Kero_file_write f bytes = Inr f'"
      unfolding f'_def using w f1(1) False f2_def w1 w2 by (rule Kero_file_write_spill)
    have bl: "length b = next_free f1" using o(4,5) nf by (simp add: b_def)
    have f'1: "disk f' = disk f2 @ b @ bytes"
      "file_size f' = file_size f1 + next_free f1 + length bytes"
      "next_free f' = 0" "fs_pos f' = length (disk f')" "fs_is_open f'" "writing_started f'"
      "is_writer f'" "buffer_size f' = buffer_size f1" "file_buffer f' = file_buffer f1"
      "current_position f' = current_position f1 + length bytes"
      using o(1,2,4,5,6,8,9,10,11) by (simp_all add: f'_def f4_def f3_def)
    have c: "file_content f' = file_content f1 @ bytes"
      using f'1(1,2,3) o(3,7) bl by (simp add: file_content_def b_def o(4,5))
    have i: "writer_inv f'" using f1(2) f'1 o(7) bl
      by (auto simp: writer_inv_def)
    have "same_meta f2 f'" by (simp add: same_meta_def f'_def f4_def f3_def)
    then have m: "same_meta f f'" using f1(3) m2
      by (simp add: same_meta_def)
    have p: "current_position f' = current_position f + length bytes"
      "file_size f' + next_free f' = file_size f + next_free f + length bytes"
      using f1(7,9,10) f'1(2,3,10) by simp_all
    show ?thesis using r c c1 i m p by auto
  qed
qed

section \<open>Running the model on concrete inputs\<close>

text \<open>
  The functions that recurse on a count are unfolded on numerals one step at a time.
\<close>

lemma store_big_endian_numeral:
  "store_big_endian (numeral n) d =
     ucast (drop_bit (8 * pred_numeral n) d) # store_big_endian (pred_numeral n) d"
  by (simp add: numeral_eq_Suc)

lemma read_chars_numeral:
  "read_chars (numeral n) f ss =
     (case Kero_file_read f 1 of
        Inl e \<Rightarrow> Inl e
      | Inr (bs, f1) \<Rightarrow> read_chars (pred_numeral n) f1 (ss @ [byte_to_char (hd bs)]))"
  by (simp add: numeral_eq_Suc)

lemma read_GV_sections_numeral:
  "read_GV_sections (numeral n) f =
     (case Section_GV_ctor f of
        Inl e \<Rightarrow> Inl e
      | Inr (sgv, f1) \<Rightarrow>
          (case Section_GV_close sgv f1 of
             Inl e \<Rightarrow> Inl e
           | Inr f2 \<Rightarrow>
               (case read_GV_sections (pred_numeral n) f2 of
                  Inl e \<Rightarrow> Inl e
                | Inr (rest, f3) \<Rightarrow> Inr (sgv # rest, f3))))"
  by (simp add: numeral_eq_Suc)

lemma nb_kmers_bytes_of_256: "nb_kmers_bytes_of 256 = 1"
  by (simp add: nb_kmers_bytes_of_def bytes_from_bit_array_def ceil_log2.simps
      sub_u64_def as_u64_def)

lemma nb_kmers_bytes_of_1: "nb_kmers_bytes_of 1 = 0"
  by (simp add: nb_kmers_bytes_of_def bytes_from_bit_array_def ceil_log2.simps)

lemma written_empty_file_bytes: "written_empty_file P = Inr empty_file_bytes"
  by (simp add: written_empty_file_def Kero_file_open_w_def Kero_file_new_def Kero_file_write_def
      resize_buffer.simps memcpy_def KERO_VERSION_MAJOR_def KERO_VERSION_MINOR_def
      Kero_file_close_def Kero_file_write_footer_def write_footer_hashtable_def
      Section_Hashtable_ctor_def Section_ctor_def Kero_file_complete_header_def
      Kero_file_write_metadata_def Section_Hashtable_close_def Section_Index_ctor_def
      Section_Index_close_def Section_GV_ctor_def Section_GV_write_var_def Section_GV_close_def
      Kero_file_register_position_def Kero_file_tellp_def store_big_endian_numeral c_str_def
      Let_def fs_write_def fs_open_out_def empty_file_bytes_def)

lemma footer_discovery_on_empty_file:
  "map_sum id (\<lambda>f. (footer f, current_position f, footer_discovery_ended f))
     (Kero_file_footer_discovery (Kero_file_reader empty_file_bytes 13)) = Inr (None, 71, False)"
  by (simp add: Kero_file_footer_discovery_def Kero_file_reader_def Kero_file_new_def
      Kero_file_jump_to_def Kero_file_tellp_def fs_seek_def Let_def empty_file_bytes_def c_str_def
      Kero_file_read.simps fs_read_def byte_to_char_def read_chars_numeral as_u64_def)

lemma raw_256_block_bytes: "raw_256_block = Inr (0 # replicate 64 0x1B)"
  by (simp add: raw_256_block_def raw_256_def nb_kmers_bytes_of_256
      Section_Raw_write_compacted_sequence_def sub_u64_def as_u64_def Let_def Kero_file_new_def
      Kero_file_write_def store_big_endian_numeral resize_buffer.simps memcpy_def file_content_def)

lemma raw_256_read_back:
  "map_sum id fst
     (Section_Raw_read_compacted_sequence raw_256 (Kero_file_reader (0 # replicate 64 0x1B) 0))
   = Inr 0"
  by (simp add: raw_256_def nb_kmers_bytes_of_256 Section_Raw_read_compacted_sequence_def
      sub_u64_def as_u64_def Let_def Kero_file_new_def Kero_file_reader_def Kero_file_read.simps
      fs_read_def load_big_endian_def)

lemma write_encoding_0121:
  "(case Kero_file_open_w (Kero_file_new []) of
      Inl e \<Rightarrow> Inl e
    | Inr f \<Rightarrow> map_sum id (\<lambda>f'. take 9 (file_content f')) (Kero_file_write_encoding f 0 1 2 1))
   = Inr (map of_char ''KERO'' @ [0, 0x19, 0x1E, 0, 0])"
  by (simp add: Kero_file_open_w_def Kero_file_new_def Kero_file_write_def
      resize_buffer.simps memcpy_def KERO_VERSION_MAJOR_def KERO_VERSION_MINOR_def
      Kero_file_write_encoding_def Kero_file_write_at.simps Let_def file_content_def)

lemma read_encoding_0x19:
  "map_sum id encoding (Kero_file_read_encoding (Kero_file_reader [0x19] 0))
   = Inl (Thrown ''Wrong encoding. The 4 2-bits values must be different.'')"
  by (simp add: Kero_file_read_encoding_def Kero_file_reader_def Kero_file_new_def
      Kero_file_read.simps fs_read_def Let_def as_u64_def)

lemma two_sections_read:
  "map_sum id (\<lambda>r. (map vars (fst r), global_vars (snd r) ''k'', global_vars (snd r) ''m''))
     (read_GV_sections 2 two_sections_reader)
   = Inr ([[(''k'', 5)], [(''m'', 3)]], None, Some 3)"
  by (simp add: two_sections_reader_def two_sections_file_def Kero_file_reader_def
      Kero_file_new_def read_GV_sections_numeral Section_GV_ctor_def Section_ctor_def
      Section_GV_read_section_def Section_GV_read_var_def Section_GV_close_def
      Kero_file_tellp_def Kero_file_read.simps fs_read_def read_name.simps c_str_def
      store_big_endian_numeral load_big_endian_def byte_to_char_def Let_def as_u64_def)

section \<open>Footer discovery, raw blocks, the encoding byte, exhausted sections\<close>

text \<open>
  Claim C3. A file produced by a writer with the index on and closed by
  \<open>Kero_file::close\<close> should, when reopened for reading, give a footer that is not
  null. The writer ends the file with the name \<open>footer_size\<close>, its null byte, the 8-byte
  value and the 4-byte signature, so the name starts 24 bytes before the end;
  \<open>footer_discovery\<close> jumps to 23 bytes before the end, reads the 11 bytes
  \<open>ooter_size\<close> and the null byte, and returns on the mismatch. On the file that
  \<open>open\<close> and \<open>close\<close> write (83 bytes, the reader standing at byte 13 after the
  header) the footer stays null, \<open>footer_discovery_ended\<close> stays false and the
  position is left at byte 71.
\<close>

theorem footer_discovery_misses_written_footer:
  "written_empty_file P = Inr empty_file_bytes
   \<and> length empty_file_bytes = 83
   \<and> take 12 (drop (83 - 24) empty_file_bytes) = c_str ''footer_size''
   \<and> map_sum id (\<lambda>f. (footer f, current_position f, footer_discovery_ended f))
         (Kero_file_footer_discovery (Kero_file_reader empty_file_bytes 13))
       = Inr (None, 71, False)"
  using written_empty_file_bytes [of P] footer_discovery_on_empty_file
  by (simp add: empty_file_bytes_def c_str_def)

text \<open>
  Claim C5. A block written by \<open>Section_Raw::write_compacted_sequence\<close> and read by
  \<open>Section_Raw::read_compacted_sequence\<close> should come back with the same number of
  k-mers whenever that number is between 1 and \<open>max\<close>. The count is stored in
  \<open>ceil(ceil(log2(max)) / 8)\<close> bytes, which hold the values below \<open>max\<close> only when
  \<open>max\<close> is a power of 256: with \<open>k = 1\<close>, \<open>max = 256\<close>, \<open>data_size = 0\<close> the count has
  one byte, a block of 256 nucleotides (256 k-mers) is written with the count byte 0
  followed by its 64 sequence bytes, and the reader returns 0 k-mers.
\<close>

theorem raw_block_count_overflows:
  "sr_nb_kmers_bytes raw_256 = 1
   \<and> raw_256_block = Inr (0 # replicate 64 0x1B)
   \<and> map_sum id fst
         (Section_Raw_read_compacted_sequence raw_256
            (Kero_file_reader (0 # replicate 64 0x1B) 0)) = Inr 0"
  using nb_kmers_bytes_of_256 raw_256_block_bytes raw_256_read_back
  by (simp add: raw_256_def)

text \<open>
  Claim C6. Every byte that \<open>Kero_file::write_encoding\<close> writes should hold four
  different 2-bit codes, so that \<open>Kero_file::read_encoding\<close> accepts it. The assertions
  test \<open>g \<noteq> t\<close> twice and never \<open>c \<noteq> t\<close>: \<open>write_encoding(0, 1, 2, 1)\<close> passes them
  and writes the byte \<open>0x19\<close> (at offset 5 of the header), and \<open>read_encoding\<close> on the
  byte \<open>0x19\<close> throws.
\<close>

theorem write_encoding_accepts_equal_codes:
  "(case Kero_file_open_w (Kero_file_new []) of
      Inl e \<Rightarrow> Inl e
    | Inr f \<Rightarrow> map_sum id (\<lambda>f'. (encoding f', take 9 (file_content f')))
                (Kero_file_write_encoding f 0 1 2 1))
     = Inr ([0, 1, 2, 1], map of_char ''KERO'' @ [0, 0x19, 0x1E, 0, 0])
   \<and> map_sum id encoding (Kero_file_read_encoding (Kero_file_reader [0x19] 0))
     = Inl (Thrown ''Wrong encoding. The 4 2-bits values must be different.'')"
  using read_encoding_0x19
  by (simp add: Kero_file_open_w_def Kero_file_new_def Kero_file_write_def
      resize_buffer.simps memcpy_def KERO_VERSION_MAJOR_def KERO_VERSION_MINOR_def
      Kero_file_write_encoding_def Kero_file_write_at.simps Let_def file_content_def)

text \<open>
  Claim C10. Once the blocks of a minimizer section are all read
  (\<open>cur_skmer_idx \<ge> nb_blocks\<close>), a call of
  \<open>Section_Minimizer::read_compacted_sequence_without_mini\<close> returns 0 and leaves the
  buffers \<open>seq\<close> and \<open>data\<close>, the output \<open>mini_pos\<close>, the file (its position
  included) and the section (the cursors \<open>last_n_pos\<close>, \<open>last_m_idx_pos\<close>,
  \<open>last_data_pos\<close>, \<open>last_seq_pos\<close> included) as they were.
\<close>

theorem read_exhausted_section_noop:
  assumes "sm_nb_blocks s \<le> cur_skmer_idx s"
  shows "Section_Minimizer_read_compacted_sequence_without_mini C s f seq data mini_position
           = Inr (0, seq, data, mini_position, s, f)"
  using assms by (simp add: Section_Minimizer_read_compacted_sequence_without_mini_def)

theorem read_exhausted_section_noop_witness:
  "sm_nb_blocks read_out_section \<le> cur_skmer_idx read_out_section
   \<and> Section_Minimizer_read_compacted_sequence_without_mini null_codec read_out_section
         example_reader [7, 7] (Some [9]) 4
       = Inr (0, [7, 7], Some [9], 4, read_out_section, example_reader)"
  using read_exhausted_section_noop [of read_out_section null_codec example_reader "[7, 7]"
      "Some [9]" 4]
  by (simp add: read_out_section_def)

section \<open>Global variables after a variable section\<close>

subsection \<open>Bytes, characters and big-endian values\<close>

lemma byte_to_char_of_char: "byte_to_char (of_char c) = c"
  by (cases c) (simp add: byte_to_char_def bit_simps)

lemma of_char_eq_0: "(of_char c :: byte) = 0 \<longleftrightarrow> c = CHR 0x00"
proof
  assume "(of_char c :: byte) = 0"
  then have "byte_to_char (of_char c) = byte_to_char 0" by simp
  then show "c = CHR 0x00" by (simp add: byte_to_char_of_char) (simp add: byte_to_char_def)
next
  assume "c = CHR 0x00"
  then show "(of_char c :: byte) = 0" by simp
qed

lemma length_store_big_endian: "length (store_big_endian n v) = n"
  by (induction n) simp_all

lemma ucast_ucast_byte: "(ucast (ucast (w :: u64) :: byte) :: u64) = take_bit 8 w"
  by (rule bit_word_eqI) (auto simp: bit_simps)

lemma take_bit_split:
  "push_bit (8 * n) (take_bit 8 (drop_bit (8 * n) (v :: u64))) OR take_bit (8 * n) v
     = take_bit (8 * n + 8) v"
  by (rule bit_word_eqI) (auto simp: bit_simps)

lemma foldl_store_big_endian:
  "foldl (\<lambda>data b. push_bit 8 data OR ucast b) acc (store_big_endian n v)
     = push_bit (8 * n) acc OR take_bit (8 * n) v"
proof (induction n arbitrary: acc)
  case 0
  then show ?case by simp
next
  case (Suc n)
  have "push_bit (8 * n) (push_bit 8 acc OR take_bit 8 (drop_bit (8 * n) v)) OR take_bit (8 * n) v
      = push_bit (8 * Suc n) acc OR take_bit (8 * Suc n) v"
  proof -
    have "push_bit (8 * n) (push_bit 8 acc) = push_bit (8 * Suc n) acc"
      by (simp add: push_bit_eq_mult power_add mult.assoc mult.commute mult.left_commute)
    then show ?thesis using take_bit_split [of n v]
      by (simp add: push_bit_or or.assoc add.commute)
  qed
  then show ?case by (simp add: Suc.IH ucast_ucast_byte)
qed

lemma load_store_8: "load_big_endian (store_big_endian 8 v) = v"
proof -
  have "take_bit 64 v = v" by (rule bit_word_eqI) (simp add: bit_simps)
  then show ?thesis using foldl_store_big_endian [of 0 8 v] by (simp add: load_big_endian_def)
qed

subsection \<open>Reading the bytes that the file holds at the position\<close>

text \<open>
  \<open>read_on f n rest f'\<close>: the reader \<open>f'\<close> is \<open>f\<close> moved \<open>n\<close> bytes forward over the
  same content, and \<open>rest\<close> is what lies ahead of it.
\<close>

definition read_on :: "Kero_file \<Rightarrow> nat \<Rightarrow> byte list \<Rightarrow> Kero_file \<Rightarrow> bool" where
  "read_on f n rest f' \<longleftrightarrow>
     reader_inv f' \<and> is_writer f' = is_writer f \<and> end_position f' = end_position f
     \<and> file_size f' = file_size f \<and> next_free f' = next_free f
     \<and> file_content f' = file_content f
     \<and> current_position f' = current_position f + n
     \<and> drop (current_position f + n) (file_content f) = rest"

lemma reader_inv_global_vars: "reader_inv (f\<lparr>global_vars := m\<rparr>) = reader_inv f"
  by (simp add: reader_inv_def)

lemma file_content_global_vars: "file_content (f\<lparr>global_vars := m\<rparr>) = file_content f"
  by (simp add: file_content_def)

lemma read_onD:
  assumes "read_on f n rest f'"
  shows "reader_inv f'" "is_writer f' = is_writer f" "end_position f' = end_position f"
    "file_size f' = file_size f" "next_free f' = next_free f"
    "file_content f' = file_content f" "current_position f' = current_position f + n"
    "drop (current_position f') (file_content f') = rest"
  using assms by (simp_all add: read_on_def)

lemma read_on_trans:
  assumes "read_on f n r g" "read_on g m r' h"
  shows "read_on f (n + m) r' h"
  unfolding read_on_def
  using read_onD [OF assms(1)] read_onD [OF assms(2)]
  by (intro conjI) (simp_all add: add.assoc)

lemma read_on_global_vars:
  assumes "read_on f n rest f'"
  shows "read_on f n rest (f'\<lparr>global_vars := m\<rparr>)"
  using assms by (simp add: read_on_def reader_inv_global_vars file_content_global_vars)

lemma read_on_from_global_vars:
  assumes "read_on (f\<lparr>global_vars := m\<rparr>) n rest f'"
  shows "read_on f n rest f'"
  using assms by (simp add: read_on_def file_content_global_vars)

lemma read_bytes:
  assumes inv: "reader_inv f" and bound: "file_size f + next_free f < 2 ^ 64"
    and at: "drop (current_position f) (file_content f) = bs @ rest" and ne: "bs \<noteq> []"
  shows "\<exists>f'. Kero_file_read f (length bs) = Inr (bs, f') \<and> read_on f (length bs) rest f'
     \<and> global_vars f' = global_vars f"
proof -
  have len: "length (file_content f) = file_size f + next_free f"
    using inv by (simp add: reader_inv_def file_content_def)
  have "length (drop (current_position f) (file_content f)) = length bs + length rest"
    using at by simp
  then have le: "current_position f + length bs \<le> file_size f + next_free f"
    using ne len by (cases bs) simp_all
  then have nw: "current_position f + length bs < 2 ^ 64" using bound by linarith
  have tk: "take (length bs) (drop (current_position f) (file_content f)) = bs"
    using at by simp
  from Kero_file_read_no_wrap [OF inv nw] le tk obtain f' where
    r: "Kero_file_read f (length bs) = Inr (bs, f')"
    and p: "current_position f' = current_position f + length bs"
    and c: "file_content f' = file_content f" "file_size f' = file_size f"
      "next_free f' = next_free f"
    and i: "reader_inv f'" and m: "same_meta f f'"
    by auto
  have "drop (current_position f + length bs) (file_content f) = rest"
    using at by (simp add: add.commute flip: drop_drop)
  then show ?thesis using r p c i m by (simp add: read_on_def same_meta_def)
qed

lemma read_name_reads:
  assumes "reader_inv f" "file_size f + next_free f < 2 ^ 64"
    "drop (current_position f) (file_content f) = c_str name @ rest"
    "CHR 0x00 \<notin> set name"
  shows "\<exists>f'. read_name f ss = Some (Inr (ss @ name, f'))
     \<and> read_on f (length (c_str name)) rest f' \<and> global_vars f' = global_vars f"
  using assms
proof (induction name arbitrary: f ss)
  case Nil
  from Nil.prems(3) have at: "drop (current_position f) (file_content f) = [0] @ rest"
    by (simp add: c_str_def)
  from read_bytes [OF Nil.prems(1,2) at] obtain f' where
    r: "Kero_file_read f 1 = Inr ([0], f')" and o: "read_on f 1 rest f'"
    and g: "global_vars f' = global_vars f" by auto
  have "read_name f ss = Some (Inr (ss, f'))"
    using r by (subst read_name.simps) simp
  then show ?case using o g by (simp add: c_str_def)
next
  case (Cons c name)
  from Cons.prems(3)
  have at: "drop (current_position f) (file_content f) = [of_char c] @ (c_str name @ rest)"
    by (simp add: c_str_def)
  from read_bytes [OF Cons.prems(1,2) at] obtain f1 where
    r: "Kero_file_read f 1 = Inr ([of_char c], f1)"
    and o: "read_on f 1 (c_str name @ rest) f1"
    and g: "global_vars f1 = global_vars f" by auto
  have nz: "(of_char c :: byte) \<noteq> 0" using Cons.prems(4) by (auto simp: of_char_eq_0)
  have step: "read_name f ss = read_name f1 (ss @ [c])"
    using r nz by (subst read_name.simps) (simp add: byte_to_char_of_char)
  have i1: "reader_inv f1" and b1: "file_size f1 + next_free f1 < 2 ^ 64"
    and a1: "drop (current_position f1) (file_content f1) = c_str name @ rest"
    using read_onD [OF o] Cons.prems(2) by simp_all
  have n1: "CHR 0x00 \<notin> set name" using Cons.prems(4) by simp
  from Cons.IH [OF i1 b1 a1 n1, of "ss @ [c]"] obtain f' where
    r': "read_name f1 (ss @ [c]) = Some (Inr ((ss @ [c]) @ name, f'))"
    and o': "read_on f1 (length (c_str name)) rest f'"
    and g': "global_vars f' = global_vars f1" by auto
  have "read_on f (1 + length (c_str name)) rest f'" using o o' by (rule read_on_trans)
  then show ?case using step r' g g' by (simp add: c_str_def)
qed

lemma Section_GV_read_var_reads:
  assumes inv: "reader_inv f" and bound: "file_size f + next_free f < 2 ^ 64"
    and at: "drop (current_position f) (file_content f) = var_bytes (name, v) @ rest"
    and nul: "CHR 0x00 \<notin> set name"
    and endp: "current_position f < end_position f"
  shows "\<exists>f'. Section_GV_read_var sgv f
          = Inr (sgv\<lparr>vars := map_assign name v (vars sgv)\<rparr>, f')
     \<and> read_on f (length (var_bytes (name, v))) rest f'
     \<and> global_vars f' = (global_vars f)(name \<mapsto> v)"
proof -
  have at1: "drop (current_position f) (file_content f)
      = c_str name @ (store_big_endian 8 v @ rest)"
    using at by (simp add: var_bytes_def)
  from read_name_reads [OF inv bound at1 nul, of "[]"] obtain f1 where
    n: "read_name f [] = Some (Inr (name, f1))"
    and o1: "read_on f (length (c_str name)) (store_big_endian 8 v @ rest) f1"
    and g1: "global_vars f1 = global_vars f" by auto
  have i1: "reader_inv f1" and b1: "file_size f1 + next_free f1 < 2 ^ 64"
    and a1: "drop (current_position f1) (file_content f1) = store_big_endian 8 v @ rest"
    using read_onD [OF o1] bound by simp_all
  have ne: "store_big_endian 8 v \<noteq> []"
    using length_store_big_endian [of 8 v] by auto
  from read_bytes [OF i1 b1 a1 ne] obtain f2 where
    r: "Kero_file_read f1 8 = Inr (store_big_endian 8 v, f2)"
    and o2: "read_on f1 8 rest f2" and g2: "global_vars f2 = global_vars f1"
    by (auto simp: length_store_big_endian)
  have o: "read_on f (length (c_str name) + 8) rest f2" using o1 o2 by (rule read_on_trans)
  let ?f' = "f2\<lparr>global_vars := (global_vars f2)(name \<mapsto> v)\<rparr>"
  have "Section_GV_read_var sgv f = Inr (sgv\<lparr>vars := map_assign name v (vars sgv)\<rparr>, ?f')"
    using endp n r by (simp add: Section_GV_read_var_def Kero_file_tellp_def load_store_8)
  moreover have "read_on f (length (var_bytes (name, v))) rest ?f'"
    using read_on_global_vars [OF o]
    by (simp add: var_bytes_def length_store_big_endian)
  moreover have "global_vars ?f' = (global_vars f)(name \<mapsto> v)" using g1 g2 by simp
  ultimately show ?thesis by blast
qed

lemma map_of_map_assign: "map_of (map_assign k v xs) = (map_of xs)(k \<mapsto> v)"
  by (induction xs) (auto simp: fun_upd_twist)

lemma map_add_rev_Cons: "m(k \<mapsto> v) ++ map_of (rev vs) = m ++ map_of (rev ((k, v) # vs))"
proof (rule ext)
  fix x
  show "(m(k \<mapsto> v) ++ map_of (rev vs)) x = (m ++ map_of (rev ((k, v) # vs))) x"
    by (cases "map_of (rev vs) x") (simp_all add: map_add_def)
qed

lemma read_vars_reads:
  assumes "reader_inv f" "file_size f + next_free f < 2 ^ 64"
    "drop (current_position f) (file_content f) = concat (map var_bytes vs) @ rest"
    "\<forall>nv \<in> set vs. CHR 0x00 \<notin> set (fst nv)"
    "current_position f + length (concat (map var_bytes vs)) \<le> end_position f"
  shows "\<exists>sgv' f'. read_vars (length vs) sgv f = Inr (sgv', f')
     \<and> read_on f (length (concat (map var_bytes vs))) rest f'
     \<and> global_vars f' = global_vars f ++ map_of (rev vs)
     \<and> map_of (vars sgv') = map_of (vars sgv) ++ map_of (rev vs)
     \<and> nb_vars sgv' = nb_vars sgv"
  using assms
proof (induction vs arbitrary: f sgv)
  case Nil
  then show ?case by (simp add: read_on_def)
next
  case (Cons nv vs)
  obtain name v where nv: "nv = (name, v)" by (cases nv)
  let ?rest1 = "concat (map var_bytes vs) @ rest"
  have at: "drop (current_position f) (file_content f) = var_bytes (name, v) @ ?rest1"
    using Cons.prems(3) nv by simp
  have nul: "CHR 0x00 \<notin> set name" using Cons.prems(4) nv by simp
  have pos: "0 < length (var_bytes (name, v))"
    by (simp add: var_bytes_def c_str_def)
  have "length (concat (map var_bytes (nv # vs)))
      = length (var_bytes (name, v)) + length (concat (map var_bytes vs))"
    using nv by simp
  then have endp: "current_position f < end_position f"
    using Cons.prems(5) pos by linarith
  from Section_GV_read_var_reads [OF Cons.prems(1,2) at nul endp, of sgv] obtain f1 where
    rv: "Section_GV_read_var sgv f = Inr (sgv\<lparr>vars := map_assign name v (vars sgv)\<rparr>, f1)"
    and o1: "read_on f (length (var_bytes (name, v))) ?rest1 f1"
    and g1: "global_vars f1 = (global_vars f)(name \<mapsto> v)" by auto
  let ?sgv1 = "sgv\<lparr>vars := map_assign name v (vars sgv)\<rparr>"
  have i1: "reader_inv f1" and b1: "file_size f1 + next_free f1 < 2 ^ 64"
    and a1: "drop (current_position f1) (file_content f1) = ?rest1"
    and e1: "current_position f1 + length (concat (map var_bytes vs)) \<le> end_position f1"
    using read_onD [OF o1] Cons.prems(2,5) nv by simp_all
  have n1: "\<forall>nv \<in> set vs. CHR 0x00 \<notin> set (fst nv)" using Cons.prems(4) by simp
  from Cons.IH [OF i1 b1 a1 n1 e1, of ?sgv1] obtain sgv' f' where
    rs: "read_vars (length vs) ?sgv1 f1 = Inr (sgv', f')"
    and o': "read_on f1 (length (concat (map var_bytes vs))) rest f'"
    and g': "global_vars f' = global_vars f1 ++ map_of (rev vs)"
    and m': "map_of (vars sgv') = map_of (vars ?sgv1) ++ map_of (rev vs)"
    and c': "nb_vars sgv' = nb_vars ?sgv1" by blast
  have r: "read_vars (length (nv # vs)) sgv f = Inr (sgv', f')" using rv rs by simp
  have o: "read_on f (length (concat (map var_bytes (nv # vs)))) rest f'"
    using read_on_trans [OF o1 o'] nv by simp
  have "global_vars f' = (global_vars f)(name \<mapsto> v) ++ map_of (rev vs)"
    using g' g1 by (simp only:)
  then have g: "global_vars f' = global_vars f ++ map_of (rev (nv # vs))"
    by (simp only: map_add_rev_Cons nv)
  have "vars ?sgv1 = map_assign name v (vars sgv)" by simp
  then have "map_of (vars sgv') = (map_of (vars sgv))(name \<mapsto> v) ++ map_of (rev vs)"
    using m' by (simp only: map_of_map_assign)
  then have m: "map_of (vars sgv') = map_of (vars sgv) ++ map_of (rev (nv # vs))"
    by (simp only: map_add_rev_Cons nv)
  have c: "nb_vars sgv' = nb_vars sgv" using c' by simp
  from r o g m c show ?case by blast
qed

subsection \<open>The layout is the one the writer emits\<close>

lemma write_vars_appends:
  assumes "writer_inv f"
  shows "\<exists>f'. write_vars f vs = Inr f' \<and> writer_inv f'
     \<and> file_content f' = file_content f @ concat (map var_bytes vs)"
  using assms
proof (induction vs arbitrary: f)
  case Nil
  then show ?case by simp
next
  case (Cons nv vs)
  obtain name v where nv: "nv = (name, v)" by (cases nv)
  from Kero_file_write_append [OF Cons.prems, of "c_str name"] obtain f1 where
    w1: "Kero_file_write f (c_str name) = Inr f1" and i1: "writer_inv f1"
    and c1: "file_content f1 = file_content f @ c_str name" by blast
  from Kero_file_write_append [OF i1, of "store_big_endian 8 v"] obtain f2 where
    w2: "Kero_file_write f1 (store_big_endian 8 v) = Inr f2" and i2: "writer_inv f2"
    and c2: "file_content f2 = file_content f1 @ store_big_endian 8 v" by blast
  from Cons.IH [OF i2] obtain f' where
    r: "write_vars f2 vs = Inr f'" and i': "writer_inv f'"
    and c': "file_content f' = file_content f2 @ concat (map var_bytes vs)" by blast
  have "write_vars f (nv # vs) = Inr f'" using nv w1 w2 r by simp
  moreover have "file_content f' = file_content f @ concat (map var_bytes (nv # vs))"
    using c1 c2 c' nv by (simp add: var_bytes_def)
  ultimately show ?case using i' by blast
qed

lemma Section_GV_close_appends:
  assumes "writer_inv f"
  shows "\<exists>f'. Section_GV_close sgv f = Inr f' \<and> writer_inv f'
     \<and> file_content f' = file_content f @ store_big_endian 8 (nb_vars sgv)
                          @ concat (map var_bytes (vars sgv))"
proof -
  have w: "is_writer f" using assms by (simp add: writer_inv_def)
  from Kero_file_write_append [OF assms, of "store_big_endian 8 (nb_vars sgv)"] obtain f1 where
    w1: "Kero_file_write f (store_big_endian 8 (nb_vars sgv)) = Inr f1" and i1: "writer_inv f1"
    and c1: "file_content f1 = file_content f @ store_big_endian 8 (nb_vars sgv)" by blast
  from write_vars_appends [OF i1, of "vars sgv"] obtain f' where
    r: "write_vars f1 (vars sgv) = Inr f'" and i': "writer_inv f'"
    and c': "file_content f' = file_content f1 @ concat (map var_bytes (vars sgv))" by blast
  have "Section_GV_close sgv f = Inr f'" using w w1 r by (simp add: Section_GV_close_def)
  then show ?thesis using i' c1 c' by simp
qed

subsection \<open>The claim and what holds instead\<close>

text \<open>
  Claim C4, as stated: after a reader has gone through a sequence of variable
  sections, \<open>global_vars\<close> binds every name that any of them defined, to the value given
  by the last section that defined it. The constructor of \<open>Section_GV\<close> empties
  \<open>global_vars\<close> first: after the sections \<open>{k = 5}\<close> and \<open>{m = 3}\<close> the name \<open>k\<close>, defined
  only by the first, is no longer bound.
\<close>

theorem global_vars_forget_earlier_section:
  "map_sum id (\<lambda>r. (map vars (fst r), global_vars (snd r) ''k''))
     (read_GV_sections 2 two_sections_reader)
   = Inr ([[(''k'', 5)], [(''m'', 3)]], None)"
  by (simp add: two_sections_reader_def two_sections_file_def Kero_file_reader_def
      Kero_file_new_def read_GV_sections_numeral Section_GV_ctor_def Section_ctor_def
      Section_GV_read_section_def Section_GV_read_var_def Section_GV_close_def
      Kero_file_tellp_def Kero_file_read.simps fs_read_def read_name.simps c_str_def
      store_big_endian_numeral load_big_endian_def byte_to_char_def Let_def as_u64_def)

text \<open>
  Claim C4, amended: each variable section replaces the global variables. When the
  constructor of \<open>Section_GV\<close> runs in read mode on a reader that stands at the bytes of
  a variable section (the tag \<open>v\<close>, the count, then each name with its NUL and its
  8-byte value), it returns with \<open>global_vars\<close> equal to the map of that section alone,
  whatever \<open>global_vars\<close> held before: a name is bound exactly when the section defines
  it, to the value of its last definition in the section, and a name that only an
  earlier section defined is not bound any more. The section object holds the same
  map, and the reader stands just after the section.
\<close>

theorem Section_GV_ctor_replaces_global_vars:
  assumes inv: "reader_inv f" and nwr: "\<not> is_writer f"
    and hdr: "header_over f \<or> \<not> footer_discovery_ended f"
    and bound: "file_size f + next_free f < 2 ^ 64"
    and at: "drop (current_position f) (file_content f) = gv_section_bytes vs @ rest"
    and nul: "\<forall>nv \<in> set vs. CHR 0x00 \<notin> set (fst nv)"
    and cnt: "length vs < 2 ^ 64"
    and endp: "current_position f + length (gv_section_bytes vs) \<le> end_position f"
  shows "\<exists>sgv f'. Section_GV_ctor f = Inr (sgv, f')
     \<and> global_vars f' = map_of (rev vs)
     \<and> map_of (vars sgv) = map_of (rev vs)
     \<and> nb_vars sgv = of_nat (length vs)
     \<and> current_position f' = current_position f + length (gv_section_bytes vs)
     \<and> file_content f' = file_content f"
proof -
  let ?g = "f\<lparr>global_vars := Map.empty\<rparr>"
  let ?count = "store_big_endian 8 (of_nat (length vs) :: u64)"
  let ?body = "concat (map var_bytes vs)"
  have sc: "Section_ctor f = Inr (current_position f, f)"
    using hdr by (auto simp: Section_ctor_def Kero_file_tellp_def)
  have ig: "reader_inv ?g" and bg: "file_size ?g + next_free ?g < 2 ^ 64"
    and ag: "drop (current_position ?g) (file_content ?g)
               = [of_char CHR ''v''] @ (?count @ ?body @ rest)"
    using inv bound at
    by (simp_all add: reader_inv_global_vars file_content_global_vars gv_section_bytes_def)
  from read_bytes [OF ig bg ag] obtain f1 where
    r1: "Kero_file_read ?g 1 = Inr ([of_char CHR ''v''], f1)"
    and o1: "read_on ?g 1 (?count @ ?body @ rest) f1"
    and g1: "global_vars f1 = Map.empty" by auto
  have i1: "reader_inv f1" and b1: "file_size f1 + next_free f1 < 2 ^ 64"
    and a1: "drop (current_position f1) (file_content f1) = ?count @ (?body @ rest)"
    using read_onD [OF o1] bound by simp_all
  have ne: "?count \<noteq> []" using length_store_big_endian [of 8 "of_nat (length vs) :: u64"] by auto
  from read_bytes [OF i1 b1 a1 ne] obtain f2 where
    r2: "Kero_file_read f1 8 = Inr (?count, f2)"
    and o2: "read_on f1 8 (?body @ rest) f2" and g2: "global_vars f2 = Map.empty"
    using g1 by (auto simp: length_store_big_endian)
  have o12: "read_on ?g (1 + 8) (?body @ rest) f2" using o1 o2 by (rule read_on_trans)
  have i2: "reader_inv f2" and b2: "file_size f2 + next_free f2 < 2 ^ 64"
    and a2: "drop (current_position f2) (file_content f2) = ?body @ rest"
    and e2: "current_position f2 + length ?body \<le> end_position f2"
    using read_onD [OF o12] bound endp
    by (simp_all add: gv_section_bytes_def length_store_big_endian)
  let ?s = "\<lparr>gv_beginning = current_position f, nb_vars = of_nat (length vs), vars = []\<rparr>"
  from read_vars_reads [OF i2 b2 a2 nul e2, of ?s] obtain sgv f3 where
    rv: "read_vars (length vs) ?s f2 = Inr (sgv, f3)"
    and o3: "read_on f2 (length ?body) rest f3"
    and g3: "global_vars f3 = global_vars f2 ++ map_of (rev vs)"
    and m3: "map_of (vars sgv) = map_of (vars ?s) ++ map_of (rev vs)"
    and c3: "nb_vars sgv = nb_vars ?s" by blast
  have un: "unat (of_nat (length vs) :: u64) = length vs"
    using cnt by (simp add: unat_of_nat)
  have rs: "Section_GV_read_section
              \<lparr>gv_beginning = current_position f, nb_vars = 0, vars = []\<rparr> ?g = Inr (sgv, f3)"
    using r1 r2 rv by (simp add: Section_GV_read_section_def load_store_8 un)
  have "read_on ?g (1 + 8 + length ?body) rest f3" using o12 o3 by (rule read_on_trans)
  then have o: "read_on f (1 + 8 + length ?body) rest f3" by (rule read_on_from_global_vars)
  have w3: "\<not> is_writer f3" using nwr read_onD(2) [OF o] by simp
  have rd: "is_reader f" using inv by (simp add: reader_inv_def)
  have "Section_GV_ctor f = Inr (sgv, f3)"
    using sc rd rs w3 by (simp add: Section_GV_ctor_def)
  moreover have "global_vars f3 = map_of (rev vs)" using g3 g2 by simp
  moreover have "map_of (vars sgv) = map_of (rev vs)" using m3 by simp
  moreover have "nb_vars sgv = of_nat (length vs)" using c3 by simp
  moreover have "current_position f3 = current_position f + length (gv_section_bytes vs)"
    using read_onD(7) [OF o] by (simp add: gv_section_bytes_def length_store_big_endian)
  moreover have "file_content f3 = file_content f"
    using read_onD(6) [OF o] .
  ultimately show ?thesis by blast
qed

text \<open>
  The theorem on the second section of the file of two sections, read by a reader
  whose \<open>global_vars\<close> holds \<open>k = 5\<close> from the first.
\<close>

definition after_first_section :: Kero_file where
  "after_first_section =
     (Kero_file_reader two_sections_file 19)
       \<lparr>header_over := True, footer_discovery_ended := True,
        global_vars := [''k'' \<mapsto> 5]\<rparr>"

theorem Section_GV_ctor_replaces_global_vars_witness:
  "reader_inv after_first_section \<and> \<not> is_writer after_first_section
   \<and> header_over after_first_section
   \<and> file_size after_first_section + next_free after_first_section < 2 ^ 64
   \<and> drop (current_position after_first_section) (file_content after_first_section)
       = gv_section_bytes [(''m'', 3)] @ map of_char ''KERO''
   \<and> CHR 0x00 \<notin> set ''m''
   \<and> length [(''m'', 3 :: u64)] < 2 ^ 64
   \<and> current_position after_first_section + length (gv_section_bytes [(''m'', 3)])
       \<le> end_position after_first_section
   \<and> global_vars after_first_section ''k'' = Some 5
   \<and> (\<exists>sgv f'. Section_GV_ctor after_first_section = Inr (sgv, f')
         \<and> global_vars f' ''k'' = None \<and> global_vars f' ''m'' = Some 3
         \<and> current_position f' = 38)"
proof -
  have v: "current_position after_first_section = 19" "file_size after_first_section = 42"
    "next_free after_first_section = 0" "end_position after_first_section = 38"
    "global_vars after_first_section ''k'' = Some 5"
    "header_over after_first_section" "\<not> is_writer after_first_section"
    by (simp_all add: after_first_section_def Kero_file_reader_def Kero_file_new_def
        two_sections_file_def c_str_def store_big_endian_numeral)
  have inv: "reader_inv after_first_section"
    by (simp add: after_first_section_def Kero_file_reader_def Kero_file_new_def
        two_sections_file_def c_str_def store_big_endian_numeral reader_inv_def)
  have len: "length (gv_section_bytes [(''m'', 3)]) = 19"
    by (simp add: gv_section_bytes_def var_bytes_def c_str_def length_store_big_endian)
  have at: "drop (current_position after_first_section) (file_content after_first_section)
      = gv_section_bytes [(''m'', 3)] @ map of_char ''KERO''"
    by (simp add: after_first_section_def Kero_file_reader_def Kero_file_new_def
        two_sections_file_def c_str_def store_big_endian_numeral file_content_def
        gv_section_bytes_def var_bytes_def)
  have hdr: "header_over after_first_section \<or> \<not> footer_discovery_ended after_first_section"
    using v(6) by simp
  have bound: "file_size after_first_section + next_free after_first_section < 2 ^ 64"
    by (simp add: v)
  have nul: "\<forall>nv \<in> set [(''m'', 3 :: u64)]. CHR 0x00 \<notin> set (fst nv)" by simp
  have cnt: "length [(''m'', 3 :: u64)] < 2 ^ 64" by simp
  have endp: "current_position after_first_section + length (gv_section_bytes [(''m'', 3)])
      \<le> end_position after_first_section"
    by (simp add: v len)
  from Section_GV_ctor_replaces_global_vars [OF inv v(7) hdr bound at nul cnt endp]
  obtain sgv f' where
    r: "Section_GV_ctor after_first_section = Inr (sgv, f')"
    and g: "global_vars f' = map_of (rev [(''m'', 3)])"
    and p: "current_position f' = current_position after_first_section
              + length (gv_section_bytes [(''m'', 3)])"
    by blast
  have "global_vars f' ''k'' = None" "global_vars f' ''m'' = Some 3" "current_position f' = 38"
    using g p by (simp_all add: v len)
  with r have ex: "\<exists>sgv f'. Section_GV_ctor after_first_section = Inr (sgv, f')
         \<and> global_vars f' ''k'' = None \<and> global_vars f' ''m'' = Some 3
         \<and> current_position f' = 38" by blast
  have nul': "CHR 0x00 \<notin> set ''m''" by simp
  from inv v(7) v(6) bound at nul' cnt endp v(5) ex show ?thesis
    by (intro conjI) assumption+
qed

end
